theory Spec2Isabelle
  imports Main "HOL-Library.Sublist"
begin

section \<open>Warehouse inventory chatbot: the conversation core of main.py\<close>

text \<open>
  The development embeds the functions of \<^verbatim>\<open>main.py\<close> that decide the behaviour of one chat
  turn: \<^verbatim>\<open>detect_intent\<close>, \<^verbatim>\<open>parse_sector_id\<close>, \<^verbatim>\<open>parse_warehouse_id\<close>, the store helpers and
  \<^verbatim>\<open>chat_endpoint\<close>. Text is a \<open>string\<close> whose characters stand for the code points
  below 256: the character functions below (\<open>isspace\<close>, \<open>lower_char\<close>, \<open>isdigit\<close>, the
  regular-expression classes) follow Python on that range, so the no-break space and the
  next-line control count as whitespace and the accented capitals have lower-case forms.
\<close>

subsection \<open>Python string operations\<close>

definition isspace :: "char \<Rightarrow> bool" where
  \<comment> \<open>\<^verbatim>\<open>str.isspace\<close> and the class \<^verbatim>\<open>\s\<close>: tab, LF, VT, FF, CR, FS, GS, RS, US, space,
      the next-line control U+0085 and the no-break space U+00A0.\<close>
  "isspace c \<longleftrightarrow> c \<in> set [CHR 0x09, CHR 0x0A, CHR 0x0B, CHR 0x0C, CHR 0x0D,
                               CHR 0x1C, CHR 0x1D, CHR 0x1E, CHR 0x1F, CHR '' '',
                               CHR 0x85, CHR 0xA0]"

definition isdigit_char :: "char \<Rightarrow> bool" where
  "isdigit_char c \<longleftrightarrow> c \<in> set ''0123456789''"

definition isupper_char :: "char \<Rightarrow> bool" where
  "isupper_char c \<longleftrightarrow> c \<in> set ''ABCDEFGHIJKLMNOPQRSTUVWXYZ''"

definition islower_char :: "char \<Rightarrow> bool" where
  "islower_char c \<longleftrightarrow> c \<in> set ''abcdefghijklmnopqrstuvwxyz''"

definition isupper_latin1 :: "char \<Rightarrow> bool" where
  \<comment> \<open>the capitals U+00C0 to U+00DE, without the multiplication sign U+00D7\<close>
  "isupper_latin1 c \<longleftrightarrow>
     (192::nat) \<le> of_char c \<and> of_char c \<le> (222::nat) \<and> of_char c \<noteq> (215::nat)"

definition lower_char :: "char \<Rightarrow> char" where
  "lower_char c =
     (if isupper_char c \<or> isupper_latin1 c then char_of (of_char c + (32::nat)) else c)"

definition lower :: "string \<Rightarrow> string" where
  \<comment> \<open>\<^verbatim>\<open>str.lower()\<close>\<close>
  "lower s = map lower_char s"

definition strip :: "string \<Rightarrow> string" where
  \<comment> \<open>\<^verbatim>\<open>str.strip()\<close>: whitespace removed at both ends.\<close>
  "strip s = rev (dropWhile isspace (rev (dropWhile isspace s)))"

definition isdigit :: "string \<Rightarrow> bool" where
  \<comment> \<open>\<^verbatim>\<open>str.isdigit()\<close>: non-empty and every character a digit; besides 0 to 9 the
      superscripts U+00B2, U+00B3 and U+00B9 are digits for this method.\<close>
  "isdigit s \<longleftrightarrow>
     s \<noteq> [] \<and> list_all (\<lambda>c. isdigit_char c \<or> c \<in> set [CHR 0xB2, CHR 0xB3, CHR 0xB9]) s"

definition startswith :: "string \<Rightarrow> string \<Rightarrow> bool" where
  "startswith s p \<longleftrightarrow> prefix p s"

definition endswith :: "string \<Rightarrow> string \<Rightarrow> bool" where
  "endswith s p \<longleftrightarrow> suffix p s"

fun join :: "string \<Rightarrow> string list \<Rightarrow> string" where
  \<comment> \<open>\<^verbatim>\<open>sep.join(xs)\<close>\<close>
  "join sep [] = []"
| "join sep [x] = x"
| "join sep (x # y # ys) = x @ sep @ join sep (y # ys)"

function replace :: "string \<Rightarrow> string \<Rightarrow> string \<Rightarrow> string" where
  \<comment> \<open>\<^verbatim>\<open>s.replace(old, new)\<close> for a non-empty \<open>old\<close>: every non-overlapping occurrence,
      leftmost first. (With an empty \<open>old\<close> Python inserts \<open>new\<close> around every character; the
      program never calls it so, and the model returns \<open>s\<close> there.)\<close>
  "replace s old new =
     (if old = [] \<or> s = [] then s
      else if prefix old s then new @ replace (drop (length old) s) old new
      else hd s # replace (tl s) old new)"
  by pat_completeness auto
termination
  by (relation "measure (\<lambda>(s, old, new). length s)") (auto simp: neq_Nil_conv)

declare replace.simps [simp del]

subsection \<open>The regular-expression fragment used by detect_intent\<close>

text \<open>
  The patterns of \<^verbatim>\<open>detect_intent\<close> use literals, greedy repetitions of a single character
  class (\<^verbatim>\<open>\s+\<close>, \<^verbatim>\<open>\s*\<close>, \<^verbatim>\<open>\d+\<close>, \<^verbatim>\<open>\d*\<close>, \<^verbatim>\<open>[a-zA-Z]+\<close>, \<^verbatim>\<open>.*\<close>), an optional character
  (\<^verbatim>\<open>s?\<close>), alternation and capturing groups. The matcher lists every way a pattern can match
  at the start of the text, in the order in which Python's backtracking engine tries them:
  a greedy repetition takes the longest run first and gives characters back one at a time, an
  alternation tries its branches left to right. The head of that list is the match that
  \<^verbatim>\<open>re.search\<close> reports for that start position.
\<close>

datatype cclass = Space | Digit | Alpha | Dot

fun in_class :: "cclass \<Rightarrow> char \<Rightarrow> bool" where
  "in_class Space c = isspace c"
| "in_class Digit c = isdigit_char c"
| "in_class Alpha c = (islower_char c \<or> isupper_char c)"
| "in_class Dot c = (c \<noteq> CHR 0x0A)"

datatype re =
    Lit string            \<comment> \<open>a literal text\<close>
  | Many cclass nat       \<comment> \<open>greedy repetition of a class, at least n times\<close>
  | Opt char              \<comment> \<open>an optional character, \<^verbatim>\<open>c?\<close>\<close>
  | Grp "re list list"    \<comment> \<open>a capturing group around an alternation of sequences\<close>

fun m_re :: "re \<Rightarrow> string \<Rightarrow> (string list \<times> string) list"
  and m_seq :: "re list \<Rightarrow> string \<Rightarrow> (string list \<times> string) list"
  and m_alts :: "re list list \<Rightarrow> string \<Rightarrow> (string list \<times> string) list" where
  "m_re (Lit l) s = (if prefix l s then [([], drop (length l) s)] else [])"
| "m_re (Many c n) s =
     map (\<lambda>j. ([], drop j s))
       (filter (\<lambda>j. n \<le> j) (rev [0 ..< Suc (length (takeWhile (in_class c) s))]))"
| "m_re (Opt c) s =
     (case s of [] \<Rightarrow> [([], s)]
      | x # xs \<Rightarrow> if x = c then [([], xs), ([], s)] else [([], s)])"
| "m_re (Grp alts) s =
     map (\<lambda>(caps, r). (take (length s - length r) s # caps, r)) (m_alts alts s)"
| "m_seq [] s = [([], s)]"
| "m_seq (r # rs) s =
     concat (map (\<lambda>(c1, s1). map (\<lambda>(c2, s2). (c1 @ c2, s2)) (m_seq rs s1)) (m_re r s))"
| "m_alts [] s = []"
| "m_alts (a # as) s = m_seq a s @ m_alts as s"

fun re_search :: "re list list \<Rightarrow> string \<Rightarrow> string list option" where
  \<comment> \<open>\<^verbatim>\<open>re.search\<close>: the leftmost start position with a match; the result is the list of
      captured groups (\<^verbatim>\<open>group(1)\<close>, \<^verbatim>\<open>group(2)\<close>, ...), \<open>None\<close> when nothing matches.\<close>
  "re_search p [] = (case m_alts p [] of [] \<Rightarrow> None | (caps, _) # _ \<Rightarrow> Some caps)"
| "re_search p (x # t) =
     (case m_alts p (x # t) of [] \<Rightarrow> re_search p t | (caps, _) # _ \<Rightarrow> Some caps)"

definition sp :: re where
  "sp = Many Space 1"

definition token :: re where
  \<comment> \<open>\<^verbatim>\<open>(\d+|[a-zA-Z]+\s*\d*)\<close>\<close>
  "token = Grp [[Many Digit 1], [Many Alpha 1, Many Space 0, Many Digit 0]]"

definition show_sectors_list_re :: "re list list" where
  \<comment> \<open>\<^verbatim>\<open>show\s+.*\s+sectors?\s+list\<close>\<close>
  "show_sectors_list_re =
     [[Lit ''show'', sp, Many Dot 0, sp, Lit ''sector'', Opt CHR ''s'', sp, Lit ''list'']]"

definition list_sectors_re :: "re list list" where
  \<comment> \<open>\<^verbatim>\<open>list\s+.*\s+sectors\<close>\<close>
  "list_sectors_re = [[Lit ''list'', sp, Many Dot 0, sp, Lit ''sectors'']]"

definition warehouses_in_sector_re :: "re list list" where
  \<comment> \<open>\<^verbatim>\<open>warehouses?\s+in\s+sector\s+(\d+|[a-zA-Z]+\s*\d*)\<close>\<close>
  "warehouses_in_sector_re =
     [[Lit ''warehouse'', Opt CHR ''s'', sp, Lit ''in'', sp, Lit ''sector'', sp, token]]"

definition add_log_re :: "re list list" where
  \<comment> \<open>\<^verbatim>\<open>add\s+.*\s+log\s+in\s+warehouse\s+(\d+|[a-zA-Z]+\s*\d*)\s+in\s+sector\s+(\d+|[a-zA-Z]+\s*\d*)\<close>\<close>
  "add_log_re =
     [[Lit ''add'', sp, Many Dot 0, sp, Lit ''log'', sp, Lit ''in'', sp, Lit ''warehouse'', sp,
       token, sp, Lit ''in'', sp, Lit ''sector'', sp, token]]"

definition greeting_re :: "re list list" where
  \<comment> \<open>\<^verbatim>\<open>hello|hi|hey|greetings\<close>\<close>
  "greeting_re = [[Lit ''hello''], [Lit ''hi''], [Lit ''hey''], [Lit ''greetings'']]"

definition who_are_you_re :: "re list list" where
  \<comment> \<open>\<^verbatim>\<open>who\s+are\s+you\<close>\<close>
  "who_are_you_re = [[Lit ''who'', sp, Lit ''are'', sp, Lit ''you'']]"

definition previous_questions_re :: "re list list" where
  \<comment> \<open>\<^verbatim>\<open>previous\s+questions|what\s+did\s+I\s+ask|what\s+were\s+my\s+questions\<close>
      (the source writes a capital \<open>I\<close> and passes no flag).\<close>
  "previous_questions_re =
     [[Lit ''previous'', sp, Lit ''questions''],
      [Lit ''what'', sp, Lit ''did'', sp, Lit ''I'', sp, Lit ''ask''],
      [Lit ''what'', sp, Lit ''were'', sp, Lit ''my'', sp, Lit ''questions'']]"

subsection \<open>detect_intent\<close>

datatype intent =
    list_sectors
  | list_warehouses_in_sector string
  | add_log string string
  | greeting
  | previous_questions
  | unknown

definition with_prefix :: "string \<Rightarrow> string \<Rightarrow> string" where
  \<comment> \<open>\<^verbatim>\<open>if name.isdigit(): name = f"Sector {name}"\<close> (and the same with \<open>Warehouse\<close>)\<close>
  "with_prefix kind name = (if isdigit name then kind @ '' '' @ name else name)"

definition detect_intent :: "string \<Rightarrow> intent" where
  "detect_intent message0 =
     (let message = lower message0 in
      if re_search show_sectors_list_re message \<noteq> None
         \<or> re_search list_sectors_re message \<noteq> None
      then list_sectors
      else case re_search warehouses_in_sector_re message of
        Some caps \<Rightarrow> list_warehouses_in_sector (with_prefix ''Sector'' (strip (caps ! 0)))
      | None \<Rightarrow>
       (case re_search add_log_re message of
          Some caps \<Rightarrow> add_log (with_prefix ''Warehouse'' (strip (caps ! 0)))
                              (with_prefix ''Sector'' (strip (caps ! 1)))
        | None \<Rightarrow>
            if re_search greeting_re message \<noteq> None \<or> re_search who_are_you_re message \<noteq> None
            then greeting
            else if re_search previous_questions_re message \<noteq> None
            then previous_questions
            else unknown))"

subsection \<open>Identifiers, values and float parsing\<close>

datatype py_error = InvalidId | StoreError | ValueError | IndexError | TypeError

type_synonym oid = string

definition ishex :: "char \<Rightarrow> bool" where
  "ishex c \<longleftrightarrow> c \<in> set ''0123456789abcdefABCDEF''"

definition is_ascii_space :: "char \<Rightarrow> bool" where
  "is_ascii_space c \<longleftrightarrow> c \<in> set [CHR 0x09, CHR 0x0A, CHR 0x0B, CHR 0x0C, CHR 0x0D, CHR '' '']"

fun fromhex :: "string \<Rightarrow> string option" where
  \<comment> \<open>\<^verbatim>\<open>bytes.fromhex(s)\<close>: pairs of hexadecimal digits, ASCII whitespace skipped before each
      pair and at the end; the bytes are rendered as lower-case hexadecimal text, \<open>None\<close>
      stands for ValueError.\<close>
  "fromhex [] = Some []"
| "fromhex [c] = (if is_ascii_space c then Some [] else None)"
| "fromhex (c # d # cs) =
     (if is_ascii_space c then fromhex (d # cs)
      else if ishex c \<and> ishex d
      then map_option (\<lambda>r. lower_char c # lower_char d # r) (fromhex cs)
      else None)"

definition ObjectId :: "string \<Rightarrow> py_error + oid" where
  \<comment> \<open>\<^verbatim>\<open>bson.ObjectId(s)\<close> for a string: a string of 24 characters that \<^verbatim>\<open>bytes.fromhex\<close>
      accepts, else InvalidId. An identifier is represented by the lower-case hexadecimal
      text of its bytes, so \<^verbatim>\<open>str(oid)\<close> is the identity.\<close>
  "ObjectId s =
     (if length s = 24
      then (case fromhex s of None \<Rightarrow> Inl InvalidId | Some h \<Rightarrow> Inr h)
      else Inl InvalidId)"

datatype pyval =
    PyStr string
  | PyFloat string   \<comment> \<open>the float that \<^verbatim>\<open>float()\<close> returns for this literal\<close>

fun digitpart :: "string \<Rightarrow> bool" where
  \<comment> \<open>\<^verbatim>\<open>digit (["_"] digit)*\<close>\<close>
  "digitpart [] = False"
| "digitpart [c] = isdigit_char c"
| "digitpart (c # d # cs) =
     (isdigit_char c \<and> (if d = CHR ''_'' then digitpart cs else digitpart (d # cs)))"

definition is_sign :: "char \<Rightarrow> bool" where
  "is_sign c \<longleftrightarrow> c = CHR ''+'' \<or> c = CHR ''-''"

definition is_exp_mark :: "char \<Rightarrow> bool" where
  "is_exp_mark c \<longleftrightarrow> c = CHR ''e'' \<or> c = CHR ''E''"

definition drop_sign :: "string \<Rightarrow> string" where
  "drop_sign s = (case s of [] \<Rightarrow> [] | c # cs \<Rightarrow> if is_sign c then cs else s)"

definition floatnumber :: "string \<Rightarrow> bool" where
  \<comment> \<open>\<^verbatim>\<open>number [exponent]\<close> with \<^verbatim>\<open>number ::= [digitpart] "." digitpart | digitpart ["."]\<close>
      and \<^verbatim>\<open>exponent ::= ("e" | "E") ["+" | "-"] digitpart\<close>\<close>
  "floatnumber s =
     (let mant = takeWhile (\<lambda>c. \<not> is_exp_mark c) s;
          ex = dropWhile (\<lambda>c. \<not> is_exp_mark c) s;
          ip = takeWhile (\<lambda>c. c \<noteq> CHR ''.'') mant;
          fr = dropWhile (\<lambda>c. c \<noteq> CHR ''.'') mant
      in (if fr = [] then digitpart ip
          else (ip = [] \<and> digitpart (tl fr)) \<or> (digitpart ip \<and> (tl fr = [] \<or> digitpart (tl fr))))
         \<and> (ex = [] \<or> digitpart (drop_sign (tl ex))))"

definition py_float :: "string \<Rightarrow> pyval option" where
  \<comment> \<open>\<^verbatim>\<open>float(s)\<close> on a string: \<open>None\<close> stands for ValueError. The grammar is the one of the
      language reference: surrounding whitespace, an optional sign, then a decimal number or
      one of \<open>inf\<close>, \<open>infinity\<close>, \<open>nan\<close> in any letter case.\<close>
  "py_float s =
     (let t = strip s; u = drop_sign t
      in if lower u \<in> set [''inf'', ''infinity'', ''nan''] \<or> floatnumber u
         then Some (PyFloat t) else None)"

function str_nat :: "nat \<Rightarrow> string" where
  \<comment> \<open>\<^verbatim>\<open>str(n)\<close> of a non-negative integer\<close>
  "str_nat n =
     (if n < 10 then [''0123456789'' ! n]
      else str_nat (n div 10) @ [''0123456789'' ! (n mod 10)])"
  by pat_completeness auto
termination
  by (relation "measure id") auto

declare str_nat.simps [simp del]

subsection \<open>The document store\<close>

text \<open>
  The three collections are lists in the store's natural order; \<^verbatim>\<open>find_one\<close> returns the
  first document that satisfies the query. A document carries the fields of \<^verbatim>\<open>models.py\<close>
  that the program reads. Every store operation can raise: \<open>faults\<close> is the set of
  operations that currently fail with an I/O error.
\<close>

record sector =
  s_id :: oid
  s_name :: string
  s_creator :: oid
  s_deleted :: bool

record column =
  title :: string
  dataIndex :: string
  dataType :: string

record warehouse =
  w_id :: oid
  w_name :: string
  w_creator :: oid
  w_sector :: oid
  w_columns :: "column list"

record log_entry =
  l_warehouse :: oid
  l_creator :: oid
  logData :: "string \<rightharpoonup> pyval"

datatype db_op =
    SectorFindExact     \<comment> \<open>\<^verbatim>\<open>db.sectors.find_one\<close> by name equality\<close>
  | SectorFindRegex     \<comment> \<open>\<^verbatim>\<open>db.sectors.find_one\<close> by anchored case-insensitive regex\<close>
  | SectorFindAll       \<comment> \<open>\<^verbatim>\<open>db.sectors.find\<close>\<close>
  | WarehouseFindName   \<comment> \<open>\<^verbatim>\<open>db.warehouses.find_one\<close> by name regex\<close>
  | WarehouseFindAll    \<comment> \<open>\<^verbatim>\<open>db.warehouses.find\<close>\<close>
  | WarehouseFindById   \<comment> \<open>\<^verbatim>\<open>db.warehouses.find_one\<close> by identifier\<close>
  | LogInsert           \<comment> \<open>\<^verbatim>\<open>db.logdatas.insert_one\<close>\<close>

record store =
  sectors :: "sector list"
  warehouses :: "warehouse list"
  logdatas :: "log_entry list"
  faults :: "db_op set"

definition regex_i :: "string \<Rightarrow> string \<Rightarrow> bool" where
  \<comment> \<open>The query \<^verbatim>\<open>{"$regex": "^" + re.escape(pattern) + "$", "$options": "i"}\<close> on a field
      value: the whole value equals the pattern up to letter case; the anchor \<^verbatim>\<open>$\<close> also
      matches before a line feed that ends the value.\<close>
  "regex_i pattern v \<longleftrightarrow>
     lower v = lower pattern \<or> lower v = lower pattern @ [CHR 0x0A]"

definition owned_live :: "oid \<Rightarrow> sector \<Rightarrow> bool" where
  \<comment> \<open>the query part \<^verbatim>\<open>"creator": object_id, "deleted": False\<close>\<close>
  "owned_live object_id s \<longleftrightarrow> s_creator s = object_id \<and> \<not> s_deleted s"

definition sectors_find_one_exact :: "store \<Rightarrow> string \<Rightarrow> oid \<Rightarrow> py_error + sector option" where
  "sectors_find_one_exact d name object_id =
     (if SectorFindExact \<in> faults d then Inl StoreError
      else Inr (find (\<lambda>s. s_name s = name \<and> owned_live object_id s) (sectors d)))"

definition sectors_find_one_regex :: "store \<Rightarrow> string \<Rightarrow> oid \<Rightarrow> py_error + sector option" where
  "sectors_find_one_regex d name object_id =
     (if SectorFindRegex \<in> faults d then Inl StoreError
      else Inr (find (\<lambda>s. regex_i name (s_name s) \<and> owned_live object_id s) (sectors d)))"

definition sectors_find :: "store \<Rightarrow> oid \<Rightarrow> py_error + sector list" where
  "sectors_find d object_id =
     (if SectorFindAll \<in> faults d then Inl StoreError
      else Inr (filter (owned_live object_id) (sectors d)))"

subsection \<open>parse_sector_id and the other store helpers\<close>

definition sector_num_of :: "string \<Rightarrow> string" where
  \<comment> \<open>\<^verbatim>\<open>sector_name.replace("Sector ", "").strip()\<close>\<close>
  "sector_num_of sector_name = strip (replace sector_name ''Sector '' [])"

definition parse_sector_id_try :: "store \<Rightarrow> string \<Rightarrow> string \<Rightarrow> py_error + oid option" where
  \<comment> \<open>The body of the \<^verbatim>\<open>try\<close> block: \<open>Inl\<close> is a raised exception.\<close>
  "parse_sector_id_try d sector_name user_id =
     (case ObjectId user_id of Inl e \<Rightarrow> Inl e | Inr object_id \<Rightarrow>
      case sectors_find_one_exact d sector_name object_id of Inl e \<Rightarrow> Inl e | Inr r1 \<Rightarrow>
      case (if r1 = None then sectors_find_one_regex d sector_name object_id else Inr r1) of
        Inl e \<Rightarrow> Inl e | Inr r2 \<Rightarrow>
      case (if r2 = None \<and> startswith sector_name ''Sector ''
            then (case sectors_find d object_id of Inl e \<Rightarrow> Inl e
                  | Inr all_sectors \<Rightarrow>
                      Inr (find (\<lambda>s. endswith (s_name s) (sector_num_of sector_name)) all_sectors))
            else Inr r2) of
        Inl e \<Rightarrow> Inl e | Inr r3 \<Rightarrow>
      case r3 of
        None \<Rightarrow> (case sectors_find d object_id of Inl e \<Rightarrow> Inl e | Inr all_sectors \<Rightarrow> Inr None)
      | Some s \<Rightarrow> Inr (Some (s_id s)))"

definition parse_sector_id :: "store \<Rightarrow> string \<Rightarrow> string \<Rightarrow> oid option" where
  \<comment> \<open>\<^verbatim>\<open>except Exception: return None\<close>\<close>
  "parse_sector_id d sector_name user_id =
     (case parse_sector_id_try d sector_name user_id of Inl e \<Rightarrow> None | Inr r \<Rightarrow> r)"

definition parse_warehouse_id :: "store \<Rightarrow> string \<Rightarrow> oid \<Rightarrow> string \<Rightarrow> oid option" where
  "parse_warehouse_id d warehouse_name sector_id user_id =
     (case ObjectId user_id of Inl e \<Rightarrow> None | Inr object_id \<Rightarrow>
      if WarehouseFindName \<in> faults d then None
      else case find (\<lambda>w. regex_i warehouse_name (w_name w) \<and> w_sector w = sector_id
                            \<and> w_creator w = object_id) (warehouses d) of
        None \<Rightarrow> None | Some w \<Rightarrow> Some (w_id w))"

definition get_user_sectors :: "store \<Rightarrow> string \<Rightarrow> sector list" where
  "get_user_sectors d user_id =
     (case ObjectId user_id of Inl e \<Rightarrow> [] | Inr object_id \<Rightarrow>
      case sectors_find d object_id of Inl e \<Rightarrow> [] | Inr l \<Rightarrow> l)"

definition get_user_warehouses_in_sector :: "store \<Rightarrow> string \<Rightarrow> oid \<Rightarrow> warehouse list" where
  "get_user_warehouses_in_sector d user_id sector_id =
     (case ObjectId user_id of Inl e \<Rightarrow> [] | Inr object_id \<Rightarrow>
      if WarehouseFindAll \<in> faults d then []
      else filter (\<lambda>w. w_creator w = object_id \<and> w_sector w = sector_id) (warehouses d))"

definition get_warehouse_columns :: "store \<Rightarrow> oid \<Rightarrow> column list option" where
  "get_warehouse_columns d warehouse_id =
     (if WarehouseFindById \<in> faults d then None
      else case find (\<lambda>w. w_id w = warehouse_id) (warehouses d) of
        None \<Rightarrow> None | Some w \<Rightarrow> Some (w_columns w))"

definition add_log_data ::
  "store \<Rightarrow> oid \<Rightarrow> string \<Rightarrow> (string \<rightharpoonup> pyval) \<Rightarrow> store \<times> nat option" where
  \<comment> \<open>Returns the store after the call and \<^verbatim>\<open>inserted_id\<close>, which the model renders as the
      position of the new record in the collection; \<open>None\<close> after a caught exception.\<close>
  "add_log_data d warehouse_id user_id log_data =
     (case ObjectId user_id of Inl e \<Rightarrow> (d, None) | Inr object_id \<Rightarrow>
      if LogInsert \<in> faults d then (d, None)
      else (d\<lparr>logdatas := logdatas d @
                [\<lparr>l_warehouse = warehouse_id, l_creator = object_id, logData = log_data\<rparr>]\<rparr>,
            Some (length (logdatas d))))"

subsection \<open>Sessions, histories and chat_endpoint\<close>

datatype stage = initial | collecting_inventory

record ConversationState =
  stage :: stage
  warehouse_id :: "string option"
  sector_id :: "string option"
  pending_columns :: "column list"
  current_column_index :: nat
  log_data :: "string \<rightharpoonup> pyval"

record turn_env =
  now :: string     \<comment> \<open>\<^verbatim>\<open>datetime.now().isoformat()\<close> during this turn\<close>
  new_oid :: oid    \<comment> \<open>the identifier that \<^verbatim>\<open>ObjectId(None)\<close> would generate during this turn\<close>

record world =
  db :: store
  conversation_states :: "string \<rightharpoonup> ConversationState"
  user_questions :: "string \<rightharpoonup> string list"
  user_responses :: "string \<rightharpoonup> string list"

definition deque_append :: "nat \<Rightarrow> 'a list \<Rightarrow> 'a \<Rightarrow> 'a list" where
  \<comment> \<open>\<^verbatim>\<open>deque(maxlen=n).append(x)\<close>: append on the right, then drop the leftmost element when
      the length exceeds \<open>n\<close>.\<close>
  "deque_append maxlen xs x = (let ys = xs @ [x] in if maxlen < length ys then tl ys else ys)"

definition history_of :: "(string \<rightharpoonup> string list) \<Rightarrow> string \<Rightarrow> string list" where
  "history_of h user_id = (case h user_id of None \<Rightarrow> [] | Some q \<Rightarrow> q)"

definition recall_phrases :: "string list" where
  "recall_phrases = [''what were my previous questions?'', ''what did i ask before?'']"

definition record_question :: "world \<Rightarrow> string \<Rightarrow> string \<Rightarrow> world" where
  \<comment> \<open>Lines 329 to 336: both deques are created on first contact, then the message is
      appended to the questions unless it is one of the two recall phrases.\<close>
  "record_question w user_id user_message =
     (let uq = (if user_id \<in> dom (user_questions w) then user_questions w
                else (user_questions w)(user_id \<mapsto> []));
          ur = (if user_id \<in> dom (user_responses w) then user_responses w
                else (user_responses w)(user_id \<mapsto> []));
          uq' = (if strip (lower user_message) \<notin> set recall_phrases
                 then uq(user_id \<mapsto> deque_append 10 (history_of uq user_id) user_message)
                 else uq)
      in w\<lparr>user_questions := uq', user_responses := ur\<rparr>)"

definition new_ConversationState :: "turn_env \<Rightarrow> ConversationState" where
  \<comment> \<open>\<^verbatim>\<open>ConversationState()\<close> with its field defaults\<close>
  "new_ConversationState env =
     \<lparr>stage = initial, warehouse_id = None, sector_id = None, pending_columns = [],
      current_column_index = 0, log_data = [''day'' \<mapsto> PyStr (now env)]\<rparr>"

definition get_conversation_state :: "world \<Rightarrow> turn_env \<Rightarrow> string \<Rightarrow> world \<times> ConversationState" where
  "get_conversation_state w env user_id =
     (case conversation_states w user_id of
        Some st \<Rightarrow> (w, st)
      | None \<Rightarrow> (w\<lparr>conversation_states := (conversation_states w)(user_id \<mapsto> new_ConversationState env)\<rparr>,
                 new_ConversationState env))"

definition put_state :: "world \<Rightarrow> string \<Rightarrow> ConversationState \<Rightarrow> world" where
  \<comment> \<open>The session object is mutated in place; the model writes it back.\<close>
  "put_state w user_id st = w\<lparr>conversation_states := (conversation_states w)(user_id \<mapsto> st)\<rparr>"

definition respond :: "world \<Rightarrow> string \<Rightarrow> string \<Rightarrow> world \<times> (py_error + string)" where
  \<comment> \<open>\<^verbatim>\<open>user_responses[user_id].append(response); return ChatbotResponse(response=response)\<close>\<close>
  "respond w user_id response =
     (w\<lparr>user_responses :=
          (user_responses w)(user_id \<mapsto> deque_append 10 (history_of (user_responses w) user_id) response)\<rparr>,
      Inr response)"

definition collect_inventory ::
  "world \<Rightarrow> turn_env \<Rightarrow> string \<Rightarrow> string \<Rightarrow> ConversationState \<Rightarrow> world \<times> (py_error + string)" where
  \<comment> \<open>Lines 342 to 386, the branch \<^verbatim>\<open>stage == "collecting_inventory"\<close>. An exception other
      than ValueError leaves the block with the mutations made so far.\<close>
  "collect_inventory w env user_id user_message st =
     (case py_float (strip user_message) of
        None \<Rightarrow> respond w user_id ''Please provide a valid number for the inventory count.''
      | Some v \<Rightarrow>
          if length (pending_columns st) \<le> current_column_index st then (w, Inl IndexError)
          else
            let current_column = pending_columns st ! current_column_index st;
                st1 = st\<lparr>log_data := (log_data st)(dataIndex current_column \<mapsto> v),
                         current_column_index := current_column_index st + 1\<rparr>
            in if length (pending_columns st1) \<le> current_column_index st1
               then (case (case warehouse_id st1 of None \<Rightarrow> Inr (new_oid env)
                           | Some s \<Rightarrow> ObjectId s) of
                       Inl e \<Rightarrow> (put_state w user_id st1, Inl e)
                     | Inr wid \<Rightarrow>
                         let d' = fst (add_log_data (db w) wid user_id (log_data st1));
                             st2 = st1\<lparr>stage := initial, warehouse_id := None, sector_id := None,
                                      pending_columns := [], current_column_index := 0,
                                      log_data := [''day'' \<mapsto> PyStr (now env)]\<rparr>
                         in respond (put_state (w\<lparr>db := d'\<rparr>) user_id st2) user_id
                              ''Thanks, your log has been added successfully.'')
               else respond (put_state w user_id st1) user_id
                      (''Thanks, now please provide inventory count for ''
                       @ title (pending_columns st1 ! current_column_index st1) @ ''.''))"

definition sector_not_found :: "string \<Rightarrow> string" where
  "sector_not_found sector_name =
     ''I couldn't find Sector '' @ sector_name @ '' in your account.''"

definition greeting_text :: string where
  "greeting_text =
     ''Hello! I'm your warehouse inventory assistant. I can help you manage sectors, warehouses, and inventory logs. What would you like to do today?''"

definition unknown_text :: string where
  "unknown_text =
     ''I'm your warehouse inventory assistant. I can help with:'' @ [CHR 0x0A]
     @ ''- Showing your sectors list'' @ [CHR 0x0A]
     @ ''- Showing warehouses in a sector'' @ [CHR 0x0A]
     @ ''- Adding inventory logs'' @ [CHR 0x0A, CHR 0x0A]
     @ ''Could you please phrase your request related to warehouse inventory management?''"

definition format_questions :: "string list \<Rightarrow> string" where
  \<comment> \<open>\<^verbatim>\<open>"Your previous questions were:\n" + "\n".join(f"{i+1}. {q}" ...)\<close>\<close>
  "format_questions qs =
     ''Your previous questions were:'' @ [CHR 0x0A]
     @ join [CHR 0x0A] (map (\<lambda>(i, q). str_nat (i + 1) @ ''. '' @ q) (enumerate 0 qs))"

definition handle_list_warehouses_in_sector ::
  "world \<Rightarrow> string \<Rightarrow> string \<Rightarrow> world \<times> (py_error + string)" where
  \<comment> \<open>Lines 393 to 408\<close>
  "handle_list_warehouses_in_sector w user_id sector_name =
     (case parse_sector_id (db w) sector_name user_id of
        None \<Rightarrow> respond w user_id (sector_not_found sector_name)
      | Some sid \<Rightarrow>
          (case get_user_warehouses_in_sector (db w) user_id sid of
             [] \<Rightarrow> respond w user_id
                    (''You don't have any warehouses in Sector '' @ sector_name @ ''.'')
           | w1 # ws \<Rightarrow> respond w user_id
                    (''Warehouses in '' @ sector_name @ '' are: ''
                     @ join '', '' (map w_name (w1 # ws)) @ ''.'')))"

definition start_collection ::
  "world \<Rightarrow> string \<Rightarrow> ConversationState \<Rightarrow> oid \<Rightarrow> oid \<Rightarrow> column list
   \<Rightarrow> world \<times> (py_error + string)" where
  \<comment> \<open>Lines 425 to 440: the columns other than \<open>day\<close> become the pending columns.\<close>
  "start_collection w user_id st sid wid columns =
     (case filter (\<lambda>col. dataIndex col \<noteq> ''day'') columns of
        [] \<Rightarrow> respond w user_id ''This warehouse doesn't have any inventory columns defined.''
      | first_column # rest \<Rightarrow>
          respond
            (put_state w user_id
               (st\<lparr>stage := collecting_inventory, warehouse_id := Some wid,
                   sector_id := Some sid, pending_columns := first_column # rest,
                   current_column_index := 0\<rparr>))
            user_id
            (''Please provide inventory count for '' @ title first_column @ ''.''))"

definition handle_add_log ::
  "world \<Rightarrow> string \<Rightarrow> ConversationState \<Rightarrow> string \<Rightarrow> string \<Rightarrow> world \<times> (py_error + string)" where
  \<comment> \<open>Lines 410 to 440. When \<^verbatim>\<open>get_warehouse_columns\<close> returns \<open>None\<close> the comprehension
      over it raises TypeError.\<close>
  "handle_add_log w user_id st warehouse_name sector_name =
     (case parse_sector_id (db w) sector_name user_id of
        None \<Rightarrow> respond w user_id (sector_not_found sector_name)
      | Some sid \<Rightarrow>
          (case parse_warehouse_id (db w) warehouse_name sid user_id of
             None \<Rightarrow> respond w user_id
                      (''I couldn't find Warehouse '' @ warehouse_name
                       @ '' in Sector '' @ sector_name @ ''.'')
           | Some wid \<Rightarrow>
               (case get_warehouse_columns (db w) wid of
                  None \<Rightarrow> (w, Inl TypeError)
                | Some columns \<Rightarrow> start_collection w user_id st sid wid columns)))"

definition handle_list_sectors :: "world \<Rightarrow> string \<Rightarrow> world \<times> (py_error + string)" where
  "handle_list_sectors w user_id =
     (case get_user_sectors (db w) user_id of
        [] \<Rightarrow> respond w user_id ''You haven't created any sectors yet.''
      | s1 # ss \<Rightarrow> respond w user_id
               (''Your created sectors are: '' @ join '', '' (map s_name (s1 # ss)) @ ''.''))"

definition handle_previous_questions :: "world \<Rightarrow> string \<Rightarrow> world \<times> (py_error + string)" where
  "handle_previous_questions w user_id =
     (case history_of (user_questions w) user_id of
        [] \<Rightarrow> respond w user_id ''You haven't asked me any questions yet.''
      | q # qs \<Rightarrow> respond w user_id (format_questions (q # qs)))"

fun dispatch ::
  "world \<Rightarrow> string \<Rightarrow> ConversationState \<Rightarrow> intent \<Rightarrow> world \<times> (py_error + string)" where
  \<comment> \<open>Lines 391 to 475: the reply to a classified message, outside a collection.\<close>
  "dispatch w user_id st (list_warehouses_in_sector sector_name) =
     handle_list_warehouses_in_sector w user_id sector_name"
| "dispatch w user_id st (add_log warehouse_name sector_name) =
     handle_add_log w user_id st warehouse_name sector_name"
| "dispatch w user_id st list_sectors = handle_list_sectors w user_id"
| "dispatch w user_id st greeting = respond w user_id greeting_text"
| "dispatch w user_id st previous_questions = handle_previous_questions w user_id"
| "dispatch w user_id st unknown = respond w user_id unknown_text"

definition chat_endpoint ::
  "world \<Rightarrow> turn_env \<Rightarrow> string \<Rightarrow> string \<Rightarrow> world \<times> (py_error + string)" where
  \<comment> \<open>One request: the world after the turn, and the reply or the exception that leaves
      the handler.\<close>
  "chat_endpoint w env user_id user_message =
     (let w1 = record_question w user_id user_message;
          (w2, st) = get_conversation_state w1 env user_id
      in if stage st = collecting_inventory
         then collect_inventory w2 env user_id user_message st
         else dispatch w2 user_id st (detect_intent user_message))"

fun chat_turns :: "world \<Rightarrow> string \<Rightarrow> (turn_env \<times> string) list \<Rightarrow> world" where
  \<comment> \<open>Consecutive requests of one user, each with its own clock reading.\<close>
  "chat_turns w user_id [] = w"
| "chat_turns w user_id ((env, m) # ts) =
     chat_turns (fst (chat_endpoint w env user_id m)) user_id ts"

fun chat_replies ::
  "world \<Rightarrow> string \<Rightarrow> (turn_env \<times> string) list \<Rightarrow> (py_error + string) list" where
  \<comment> \<open>The outcomes of these requests, in order.\<close>
  "chat_replies w user_id [] = []"
| "chat_replies w user_id ((env, m) # ts) =
     snd (chat_endpoint w env user_id m)
     # chat_replies (fst (chat_endpoint w env user_id m)) user_id ts"

definition histories_bounded :: "world \<Rightarrow> bool" where
  "histories_bounded w \<longleftrightarrow>
     (\<forall>u. length (history_of (user_questions w) u) \<le> 10
        \<and> length (history_of (user_responses w) u) \<le> 10)"

definition session_of :: "world \<Rightarrow> turn_env \<Rightarrow> string \<Rightarrow> ConversationState" where
  \<comment> \<open>The session that a turn works on: the stored one, or a fresh one on first contact.\<close>
  "session_of w env user_id =
     (case conversation_states w user_id of None \<Rightarrow> new_ConversationState env | Some st \<Rightarrow> st)"

definition idle_seeded :: "world \<Rightarrow> bool" where
  \<comment> \<open>Outside a collection the record under construction holds the \<open>day\<close> seed only.\<close>
  "idle_seeded w \<longleftrightarrow>
     (\<forall>u st. conversation_states w u = Some st \<and> stage st = initial \<longrightarrow>
        dom (log_data st) = {''day''})"

subsection \<open>Example data\<close>

definition user1 :: string where
  "user1 = ''0123456789abcdef01234567''"

definition user2 :: string where
  "user2 = ''fedcba9876543210fedcba98''"

definition sid1 :: oid where "sid1 = ''aaaaaaaaaaaaaaaaaaaaaaa1''"
definition sid2 :: oid where "sid2 = ''aaaaaaaaaaaaaaaaaaaaaaa2''"
definition sid3 :: oid where "sid3 = ''aaaaaaaaaaaaaaaaaaaaaaa3''"
definition sid4 :: oid where "sid4 = ''aaaaaaaaaaaaaaaaaaaaaaa4''"
definition sid5 :: oid where "sid5 = ''aaaaaaaaaaaaaaaaaaaaaaa5''"
definition sid6 :: oid where "sid6 = ''aaaaaaaaaaaaaaaaaaaaaaa6''"
definition wid1 :: oid where "wid1 = ''bbbbbbbbbbbbbbbbbbbbbbb1''"

definition col_day :: column where
  "col_day = \<lparr>title = ''Day'', dataIndex = ''day'', dataType = ''date''\<rparr>"
definition col_qty :: column where
  "col_qty = \<lparr>title = ''Quantity'', dataIndex = ''qty'', dataType = ''number''\<rparr>"
definition col_weight :: column where
  "col_weight = \<lparr>title = ''Weight'', dataIndex = ''weight'', dataType = ''number''\<rparr>"
definition col_price :: column where
  "col_price = \<lparr>title = ''Price'', dataIndex = ''price'', dataType = ''number''\<rparr>"

definition store1 :: store where
  \<comment> \<open>Both users own a sector called \<open>Sector 1\<close>; user1 also owns \<open>Sector 12\<close> and a deleted
      \<open>Sector 7\<close>, and a warehouse with the columns day, qty, weight and price.\<close>
  "store1 =
     \<lparr>sectors =
        [\<lparr>s_id = sid2, s_name = ''Sector 1'', s_creator = user2, s_deleted = False\<rparr>,
         \<lparr>s_id = sid1, s_name = ''Sector 1'', s_creator = user1, s_deleted = False\<rparr>,
         \<lparr>s_id = sid5, s_name = ''Sector 7'', s_creator = user1, s_deleted = True\<rparr>,
         \<lparr>s_id = sid3, s_name = ''Sector 12'', s_creator = user1, s_deleted = False\<rparr>],
      warehouses =
        [\<lparr>w_id = wid1, w_name = ''Warehouse 1'', w_creator = user1, w_sector = sid1,
          w_columns = [col_day, col_qty, col_weight, col_price]\<rparr>],
      logdatas = [],
      faults = {}\<rparr>"

definition store2 :: store where
  \<comment> \<open>As \<open>store1\<close>, with a sector \<open>sector 2\<close> of user1 stored after \<open>Sector 12\<close>.\<close>
  "store2 =
     store1\<lparr>sectors := sectors store1 @
        [\<lparr>s_id = sid4, s_name = ''sector 2'', s_creator = user1, s_deleted = False\<rparr>]\<rparr>"

definition store3 :: store where
  \<comment> \<open>As \<open>store1\<close>, with a sector \<open>SECTOR 12\<close> of user1 stored before every other sector.\<close>
  "store3 =
     store1\<lparr>sectors :=
        \<lparr>s_id = sid6, s_name = ''SECTOR 12'', s_creator = user1, s_deleted = False\<rparr>
        # sectors store1\<rparr>"

definition world_of :: "store \<Rightarrow> world" where
  \<comment> \<open>The process right after start: no session and no history.\<close>
  "world_of d =
     \<lparr>db = d, conversation_states = Map.empty, user_questions = Map.empty,
      user_responses = Map.empty\<rparr>"

definition env_at :: "string \<Rightarrow> turn_env" where
  "env_at t = \<lparr>now = t, new_oid = ''cccccccccccccccccccccccc''\<rparr>"

definition collecting_session :: ConversationState where
  \<comment> \<open>A session that waits for the value of the second of three columns.\<close>
  "collecting_session =
     \<lparr>stage = collecting_inventory, warehouse_id = Some wid1, sector_id = Some sid1,
      pending_columns = [col_qty, col_weight, col_price], current_column_index = 1,
      log_data = [''day'' \<mapsto> PyStr ''2024-05-01T09:00:00'', ''qty'' \<mapsto> PyFloat ''50'']\<rparr>"

definition twelve_questions :: "(turn_env \<times> string) list" where
  "twelve_questions =
     map (\<lambda>q. (env_at ''2024-05-01T09:00:00'', q))
       [''q1'', ''q2'', ''q3'', ''q4'', ''q5'', ''q6'', ''q7'', ''q8'', ''q9'', ''q10'',
        ''q11'', ''q12'']"

definition twelve_mixed :: "(turn_env \<times> string) list" where
  \<comment> \<open>Twelve requests of user1 with four different kinds of reply.\<close>
  "twelve_mixed =
     map (\<lambda>q. (env_at ''2024-05-01T09:00:00'', q))
       [''hello'', ''list my sectors'', ''show warehouses in sector 1'', ''q4'', ''hello'',
        ''q6'', ''list my sectors'', ''q8'', ''q9'', ''hello'', ''q11'',
        ''show warehouses in sector 12'']"

definition twelve_replies :: "string list" where
  \<comment> \<open>The replies to \<open>twelve_mixed\<close> in \<open>store1\<close>.\<close>
  "twelve_replies =
     [greeting_text,
      ''Your created sectors are: Sector 1, Sector 12.'',
      ''Warehouses in Sector 1 are: Warehouse 1.'',
      unknown_text, greeting_text, unknown_text,
      ''Your created sectors are: Sector 1, Sector 12.'',
      unknown_text, unknown_text, greeting_text, unknown_text,
      ''You don't have any warehouses in Sector Sector 12.'']"

definition collecting_world :: world where
  \<comment> \<open>user1 is in the middle of a collection.\<close>
  "collecting_world =
     (world_of store1)\<lparr>conversation_states := [user1 \<mapsto> collecting_session]\<rparr>"

definition down_world :: world where
  \<comment> \<open>A fresh process whose store fails on the first sector lookup.\<close>
  "down_world = world_of (store1\<lparr>faults := {SectorFindExact}\<rparr>)"

definition shadowed_message :: string where
  \<comment> \<open>A request to add a log that also mentions the warehouses of another sector.\<close>
  "shadowed_message = ''add new log in warehouse 1 in sector 1 like the warehouses in sector 2''"

definition greet_then_log :: "(turn_env \<times> string) list" where
  \<comment> \<open>user1 greets in the morning and files a log in the evening.\<close>
  "greet_then_log =
     [(env_at ''2024-05-01T09:00:00'', ''hello''),
      (env_at ''2024-05-01T17:30:00'', ''add new log in warehouse 1 in sector 1''),
      (env_at ''2024-05-01T17:30:20'', ''50''),
      (env_at ''2024-05-01T17:30:40'', ''12.5''),
      (env_at ''2024-05-01T17:31:00'', ''3'')]"

section \<open>Properties\<close>

subsection \<open>Bounded histories\<close>

lemma deque_append_length: "length xs \<le> n \<Longrightarrow> length (deque_append n xs x) \<le> n"
  by (simp add: deque_append_def Let_def)

lemma deque_append_less: "length xs < n \<Longrightarrow> deque_append n xs x = xs @ [x]"
  by (simp add: deque_append_def Let_def)

lemma deque_append_full: "length xs = n \<Longrightarrow> deque_append n xs x = tl (xs @ [x])"
  by (simp add: deque_append_def Let_def)

lemma foldl_deque_append:
  "length xs \<le> n \<Longrightarrow>
   foldl (deque_append n) xs qs = drop (length (xs @ qs) - n) (xs @ qs)"
proof (induction qs arbitrary: xs)
  case Nil
  then show ?case by simp
next
  case (Cons q qs)
  show ?case
  proof (cases "length xs < n")
    case True
    then have "foldl (deque_append n) (xs @ [q]) qs
               = drop (length ((xs @ [q]) @ qs) - n) ((xs @ [q]) @ qs)"
      by (intro Cons.IH) simp
    then show ?thesis using True by (simp add: deque_append_less)
  next
    case False
    then have full: "length xs = n" using Cons.prems by simp
    define ys where "ys = tl (xs @ [q])"
    have len: "length ys = n" by (simp add: ys_def full)
    have app: "ys @ qs = drop 1 (xs @ q # qs)"
      by (cases xs) (simp_all add: ys_def)
    have "foldl (deque_append n) ys qs = drop (length (ys @ qs) - n) (ys @ qs)"
      by (intro Cons.IH) (simp add: len)
    also have "\<dots> = drop (length qs) (drop 1 (xs @ q # qs))"
    proof -
      have "length (ys @ qs) - n = length qs" by (simp add: len)
      then show ?thesis by (simp only: app)
    qed
    also have "\<dots> = drop (length (xs @ q # qs) - n) (xs @ q # qs)"
      by (simp only: drop_drop) (simp add: full)
    finally show ?thesis by (simp add: deque_append_full full ys_def)
  qed
qed

lemma respond_questions [simp]: "user_questions (fst (respond w u r)) = user_questions w"
  by (simp add: respond_def)

lemma respond_states [simp]: "conversation_states (fst (respond w u r)) = conversation_states w"
  by (simp add: respond_def)

lemma respond_db [simp]: "db (fst (respond w u r)) = db w"
  by (simp add: respond_def)

lemma respond_snd [simp]: "snd (respond w u r) = Inr r"
  by (simp add: respond_def)

lemma respond_responses [simp]:
  "user_responses (fst (respond w u r))
   = (user_responses w)(u \<mapsto> deque_append 10 (history_of (user_responses w) u) r)"
  by (simp add: respond_def)

lemma put_state_simps [simp]:
  "user_questions (put_state w u st) = user_questions w"
  "user_responses (put_state w u st) = user_responses w"
  "db (put_state w u st) = db w"
  "conversation_states (put_state w u st) = (conversation_states w)(u \<mapsto> st)"
  by (simp_all add: put_state_def)

lemma get_conversation_state_simps [simp]:
  "user_questions (fst (get_conversation_state w env u)) = user_questions w"
  "user_responses (fst (get_conversation_state w env u)) = user_responses w"
  "db (fst (get_conversation_state w env u)) = db w"
  by (simp_all add: get_conversation_state_def split: option.splits)

lemma collect_inventory_questions [simp]:
  "user_questions (fst (collect_inventory w env u m st)) = user_questions w"
  by (simp add: collect_inventory_def Let_def split: option.splits sum.splits)

lemma dispatch_questions [simp]:
  "user_questions (fst (dispatch w u st i)) = user_questions w"
  by (cases i) (simp_all add: handle_list_warehouses_in_sector_def handle_add_log_def
      start_collection_def handle_list_sectors_def handle_previous_questions_def
      split: option.splits list.splits)

lemma record_question_history:
  "history_of (user_questions (record_question w u m)) u'
   = (if u' = u \<and> strip (lower m) \<notin> set recall_phrases
      then deque_append 10 (history_of (user_questions w) u) m
      else history_of (user_questions w) u')"
  by (auto simp: record_question_def history_of_def Let_def dom_def split: option.splits)

lemma record_question_responses:
  "history_of (user_responses (record_question w u m)) u' = history_of (user_responses w) u'"
  by (auto simp: record_question_def history_of_def Let_def dom_def split: option.splits)

lemma chat_endpoint_questions:
  "user_questions (fst (chat_endpoint w env u m)) = user_questions (record_question w u m)"
  by (simp add: chat_endpoint_def Let_def split: prod.splits)
     (metis fst_conv get_conversation_state_simps(1))

lemma collect_inventory_responses:
  "history_of (user_responses (fst (collect_inventory w env u m st))) u' = history_of (user_responses w) u'
   \<or> (\<exists>r. history_of (user_responses (fst (collect_inventory w env u m st))) u'
          = deque_append 10 (history_of (user_responses w) u') r)"
  by (auto simp: collect_inventory_def Let_def history_of_def split: option.splits sum.splits)

lemma dispatch_responses:
  "history_of (user_responses (fst (dispatch w u st i))) u' = history_of (user_responses w) u'
   \<or> (\<exists>r. history_of (user_responses (fst (dispatch w u st i))) u'
          = deque_append 10 (history_of (user_responses w) u') r)"
  by (cases i) (auto simp: handle_list_warehouses_in_sector_def handle_add_log_def
      start_collection_def handle_list_sectors_def handle_previous_questions_def history_of_def
      split: option.splits list.splits)

lemma chat_endpoint_responses:
  "history_of (user_responses (fst (chat_endpoint w env u m))) u' = history_of (user_responses w) u'
   \<or> (\<exists>r. history_of (user_responses (fst (chat_endpoint w env u m))) u'
          = deque_append 10 (history_of (user_responses w) u') r)"
proof -
  obtain w2 st where g: "get_conversation_state (record_question w u m) env u = (w2, st)"
    by (cases "get_conversation_state (record_question w u m) env u")
  have r: "history_of (user_responses w2) u' = history_of (user_responses w) u'"
    using g get_conversation_state_simps(2)[of "record_question w u m" env u]
    by (simp add: record_question_responses)
  show ?thesis
    using collect_inventory_responses[of w2 env u m st u'] dispatch_responses[of w2 u st "detect_intent m" u']
    by (simp add: chat_endpoint_def Let_def g r)
qed

lemma chat_endpoint_bounded:
  "histories_bounded w \<Longrightarrow> histories_bounded (fst (chat_endpoint w env u m))"
  unfolding histories_bounded_def
proof (intro allI conjI)
  fix u'
  assume b: "\<forall>u. length (history_of (user_questions w) u) \<le> 10 \<and> length (history_of (user_responses w) u) \<le> 10"
  show "length (history_of (user_questions (fst (chat_endpoint w env u m))) u') \<le> 10"
    using b by (simp add: chat_endpoint_questions record_question_history deque_append_length)
  show "length (history_of (user_responses (fst (chat_endpoint w env u m))) u') \<le> 10"
    using b chat_endpoint_responses[of w env u m u'] by (auto simp: deque_append_length)
qed

lemma chat_turns_questions:
  "\<forall>m \<in> set (map snd ts). strip (lower m) \<notin> set recall_phrases \<Longrightarrow>
   history_of (user_questions (chat_turns w u ts)) u
   = foldl (deque_append 10) (history_of (user_questions w) u) (map snd ts)"
proof (induction ts arbitrary: w)
  case Nil
  then show ?case by simp
next
  case (Cons t ts)
  obtain env m where t: "t = (env, m)" by (cases t)
  show ?case using Cons.prems Cons.IH[of "fst (chat_endpoint w env u m)"]
    by (simp add: t chat_endpoint_questions record_question_history)
qed

lemma respond_answer:
  "snd (respond w u x) = Inr r \<Longrightarrow>
   user_responses (fst (respond w u x))
   = (user_responses w)(u \<mapsto> deque_append 10 (history_of (user_responses w) u) r)"
  by simp

lemma collect_inventory_answer:
  "snd (collect_inventory w env u m st) = Inr r \<Longrightarrow>
   user_responses (fst (collect_inventory w env u m st))
   = (user_responses w)(u \<mapsto> deque_append 10 (history_of (user_responses w) u) r)"
  by (cases "py_float (strip m)")
     (auto simp: collect_inventory_def Let_def split: option.splits sum.splits if_splits)

lemma collect_inventory_crash:
  "snd (collect_inventory w env u m st) = Inl e \<Longrightarrow>
   user_responses (fst (collect_inventory w env u m st)) = user_responses w"
  by (cases "py_float (strip m)")
     (auto simp: collect_inventory_def Let_def split: option.splits sum.splits if_splits)

lemma start_collection_answer:
  "snd (start_collection w u st sid wid cols) = Inr r \<Longrightarrow>
   user_responses (fst (start_collection w u st sid wid cols))
   = (user_responses w)(u \<mapsto> deque_append 10 (history_of (user_responses w) u) r)"
  by (cases "filter (\<lambda>col. dataIndex col \<noteq> ''day'') cols")
     (auto simp: start_collection_def)

lemma start_collection_no_crash:
  "snd (start_collection w u st sid wid cols) \<noteq> Inl e"
  by (cases "filter (\<lambda>col. dataIndex col \<noteq> ''day'') cols")
     (auto simp: start_collection_def)

lemma dispatch_answer:
  assumes "snd (dispatch w u st i) = Inr r"
  shows "user_responses (fst (dispatch w u st i))
         = (user_responses w)(u \<mapsto> deque_append 10 (history_of (user_responses w) u) r)"
proof (cases i)
  case (add_log wn sn)
  show ?thesis
    using assms start_collection_answer[of w u st _ _ _ r]
    by (auto simp: add_log handle_add_log_def split: option.splits)
next
  case list_sectors
  then show ?thesis using assms
    by (auto simp: handle_list_sectors_def split: list.splits)
next
  case (list_warehouses_in_sector sn)
  then show ?thesis using assms
    by (auto simp: handle_list_warehouses_in_sector_def split: option.splits list.splits)
next
  case greeting
  then show ?thesis using assms by auto
next
  case previous_questions
  then show ?thesis using assms
    by (auto simp: handle_previous_questions_def split: list.splits)
next
  case unknown
  then show ?thesis using assms by auto
qed

lemma dispatch_crash:
  assumes "snd (dispatch w u st i) = Inl e"
  shows "user_responses (fst (dispatch w u st i)) = user_responses w"
proof (cases i)
  case (add_log wn sn)
  show ?thesis
    using assms start_collection_no_crash[of w u st _ _ _ e]
    by (auto simp: add_log handle_add_log_def split: option.splits)
next
  case list_sectors
  then show ?thesis using assms
    by (auto simp: handle_list_sectors_def split: list.splits)
next
  case (list_warehouses_in_sector sn)
  then show ?thesis using assms
    by (auto simp: handle_list_warehouses_in_sector_def split: option.splits list.splits)
next
  case greeting
  then show ?thesis using assms by auto
next
  case previous_questions
  then show ?thesis using assms
    by (auto simp: handle_previous_questions_def split: list.splits)
next
  case unknown
  then show ?thesis using assms by auto
qed

lemma history_of_upd:
  "history_of (h(u \<mapsto> x)) u' = (if u' = u then x else history_of h u')"
  by (simp add: history_of_def)

lemma chat_endpoint_cases:
  obtains st where "chat_endpoint w env u m
                    = collect_inventory (fst (get_conversation_state (record_question w u m) env u))
                        env u m st"
  | st where "chat_endpoint w env u m
              = dispatch (fst (get_conversation_state (record_question w u m) env u)) u st
                  (detect_intent m)"
proof -
  obtain w2 st where g: "get_conversation_state (record_question w u m) env u = (w2, st)"
    by (cases "get_conversation_state (record_question w u m) env u")
  show ?thesis
  proof (cases "stage st = collecting_inventory")
    case True
    then have "chat_endpoint w env u m = collect_inventory w2 env u m st"
      by (simp add: chat_endpoint_def Let_def g)
    then show ?thesis using that(1)[of st] g by simp
  next
    case False
    then have "chat_endpoint w env u m = dispatch w2 u st (detect_intent m)"
      by (simp add: chat_endpoint_def Let_def g)
    then show ?thesis using that(2)[of st] g by simp
  qed
qed

lemma chat_endpoint_answer:
  assumes "snd (chat_endpoint w env u m) = Inr r"
  shows "history_of (user_responses (fst (chat_endpoint w env u m))) u'
         = (if u' = u then deque_append 10 (history_of (user_responses w) u) r
            else history_of (user_responses w) u')"
proof -
  let ?w2 = "fst (get_conversation_state (record_question w u m) env u)"
  have "user_responses (fst (chat_endpoint w env u m))
        = (user_responses ?w2)(u \<mapsto> deque_append 10 (history_of (user_responses ?w2) u) r)"
  proof (rule chat_endpoint_cases[of w env u m])
    fix st
    assume c: "chat_endpoint w env u m = collect_inventory ?w2 env u m st"
    with assms show ?thesis by (simp add: collect_inventory_answer)
  next
    fix st
    assume c: "chat_endpoint w env u m = dispatch ?w2 u st (detect_intent m)"
    with assms show ?thesis by (simp add: dispatch_answer)
  qed
  then show ?thesis by (simp add: history_of_upd record_question_responses)
qed

lemma chat_endpoint_crash:
  assumes "snd (chat_endpoint w env u m) = Inl e"
  shows "history_of (user_responses (fst (chat_endpoint w env u m))) u'
         = history_of (user_responses w) u'"
proof -
  let ?w2 = "fst (get_conversation_state (record_question w u m) env u)"
  have "user_responses (fst (chat_endpoint w env u m)) = user_responses ?w2"
  proof (rule chat_endpoint_cases[of w env u m])
    fix st
    assume c: "chat_endpoint w env u m = collect_inventory ?w2 env u m st"
    with assms show ?thesis by (simp add: collect_inventory_crash)
  next
    fix st
    assume c: "chat_endpoint w env u m = dispatch ?w2 u st (detect_intent m)"
    with assms show ?thesis by (simp add: dispatch_crash)
  qed
  then show ?thesis by (simp add: record_question_responses)
qed

lemma chat_turns_answers:
  "chat_replies w u ts = map Inr rs \<Longrightarrow>
   history_of (user_responses (chat_turns w u ts)) u
   = foldl (deque_append 10) (history_of (user_responses w) u) rs"
proof (induction ts arbitrary: w rs)
  case Nil
  then show ?case by simp
next
  case (Cons t ts)
  obtain env m where t: "t = (env, m)" by (cases t)
  from Cons.prems t obtain r rs' where
    rs: "rs = r # rs'" "snd (chat_endpoint w env u m) = Inr r"
    "chat_replies (fst (chat_endpoint w env u m)) u ts = map Inr rs'"
    by (cases rs) auto
  show ?case
    using Cons.IH[OF rs(3)] chat_endpoint_answer[OF rs(2), of u]
    by (simp add: t rs(1))
qed

text \<open>
  Claim C8. The question history and the answer history of every user hold at most 10
  entries, every append keeps that bound and evicts the oldest entry first, and every chat
  turn preserves the bound. A turn appends its message to the sender's questions unless it
  is a recall phrase, and a turn that replies appends the reply to the sender's answers,
  each by the bounded append; the histories of the other users stay as they were, and a
  turn that ends in an exception records no answer. After 12 questions of one user, none of
  them a recall phrase, exactly the last 10 are retained, in order of arrival; after 12
  replies to one user exactly the last 10 replies are retained, in order.
\<close>

theorem history_capacity_ten:
  "(length xs \<le> 10 \<longrightarrow>
      length (deque_append 10 xs x) \<le> 10
      \<and> deque_append 10 xs x = drop (length (xs @ [x]) - 10) (xs @ [x]))
   \<and> (histories_bounded w \<longrightarrow> histories_bounded (fst (chat_endpoint w env u m)))
   \<and> (length (history_of (user_questions w) u) \<le> 10
        \<and> (\<forall>q \<in> set (map snd ts). strip (lower q) \<notin> set recall_phrases) \<longrightarrow>
      history_of (user_questions (chat_turns w u ts)) u
      = drop (length (history_of (user_questions w) u @ map snd ts) - 10)
          (history_of (user_questions w) u @ map snd ts))
   \<and> (user_questions w u = None \<and> length ts = 12
        \<and> (\<forall>q \<in> set (map snd ts). strip (lower q) \<notin> set recall_phrases) \<longrightarrow>
      history_of (user_questions (chat_turns w u ts)) u = drop 2 (map snd ts))
   \<and> history_of (user_questions (fst (chat_endpoint w env u m))) u'
     = (if u' = u \<and> strip (lower m) \<notin> set recall_phrases
        then deque_append 10 (history_of (user_questions w) u) m
        else history_of (user_questions w) u')
   \<and> (snd (chat_endpoint w env u m) = Inr r \<longrightarrow>
      history_of (user_responses (fst (chat_endpoint w env u m))) u'
      = (if u' = u then deque_append 10 (history_of (user_responses w) u) r
         else history_of (user_responses w) u'))
   \<and> (snd (chat_endpoint w env u m) = Inl e \<longrightarrow>
      history_of (user_responses (fst (chat_endpoint w env u m))) u'
      = history_of (user_responses w) u')
   \<and> (length (history_of (user_responses w) u) \<le> 10
        \<and> chat_replies w u ts = map Inr rs \<longrightarrow>
      history_of (user_responses (chat_turns w u ts)) u
      = drop (length (history_of (user_responses w) u @ rs) - 10)
          (history_of (user_responses w) u @ rs))
   \<and> (user_responses w u = None \<and> length rs = 12
        \<and> chat_replies w u ts = map Inr rs \<longrightarrow>
      history_of (user_responses (chat_turns w u ts)) u = drop 2 rs)"
proof -
  have c1: "length xs \<le> 10 \<longrightarrow>
      length (deque_append 10 xs x) \<le> 10
      \<and> deque_append 10 xs x = drop (length (xs @ [x]) - 10) (xs @ [x])"
    using deque_append_length [of xs 10 x] foldl_deque_append [of xs 10 "[x]"] by simp
  have c2: "histories_bounded w \<longrightarrow> histories_bounded (fst (chat_endpoint w env u m))"
    by (simp add: chat_endpoint_bounded)
  have c3: "length (history_of (user_questions w) u) \<le> 10
        \<and> (\<forall>q \<in> set (map snd ts). strip (lower q) \<notin> set recall_phrases) \<longrightarrow>
      history_of (user_questions (chat_turns w u ts)) u
      = drop (length (history_of (user_questions w) u @ map snd ts) - 10)
          (history_of (user_questions w) u @ map snd ts)"
    using chat_turns_questions [of ts w u]
      foldl_deque_append [of "history_of (user_questions w) u" 10 "map snd ts"]
    by simp
  have c4: "user_questions w u = None \<and> length ts = 12
        \<and> (\<forall>q \<in> set (map snd ts). strip (lower q) \<notin> set recall_phrases) \<longrightarrow>
      history_of (user_questions (chat_turns w u ts)) u = drop 2 (map snd ts)"
  proof
    assume a: "user_questions w u = None \<and> length ts = 12
        \<and> (\<forall>q \<in> set (map snd ts). strip (lower q) \<notin> set recall_phrases)"
    then have h: "history_of (user_questions w) u = []"
      by (simp add: history_of_def)
    have "history_of (user_questions (chat_turns w u ts)) u
          = foldl (deque_append 10) [] (map snd ts)"
      using a chat_turns_questions [of ts w u] by (simp add: h)
    also have "\<dots> = drop (length ([] @ map snd ts) - 10) ([] @ map snd ts)"
      by (rule foldl_deque_append) simp
    finally show "history_of (user_questions (chat_turns w u ts)) u = drop 2 (map snd ts)"
      using a by simp
  qed
  have c5: "history_of (user_questions (fst (chat_endpoint w env u m))) u'
     = (if u' = u \<and> strip (lower m) \<notin> set recall_phrases
        then deque_append 10 (history_of (user_questions w) u) m
        else history_of (user_questions w) u')"
    by (simp only: chat_endpoint_questions record_question_history)
  have c6: "snd (chat_endpoint w env u m) = Inr r \<longrightarrow>
      history_of (user_responses (fst (chat_endpoint w env u m))) u'
      = (if u' = u then deque_append 10 (history_of (user_responses w) u) r
         else history_of (user_responses w) u')"
    using chat_endpoint_answer [of w env u m r u'] by blast
  have c7: "snd (chat_endpoint w env u m) = Inl e \<longrightarrow>
      history_of (user_responses (fst (chat_endpoint w env u m))) u'
      = history_of (user_responses w) u'"
    using chat_endpoint_crash [of w env u m e u'] by blast
  have c8: "length (history_of (user_responses w) u) \<le> 10
        \<and> chat_replies w u ts = map Inr rs \<longrightarrow>
      history_of (user_responses (chat_turns w u ts)) u
      = drop (length (history_of (user_responses w) u @ rs) - 10)
          (history_of (user_responses w) u @ rs)"
    using chat_turns_answers [of w u ts rs]
      foldl_deque_append [of "history_of (user_responses w) u" 10 rs]
    by simp
  have c9: "user_responses w u = None \<and> length rs = 12
        \<and> chat_replies w u ts = map Inr rs \<longrightarrow>
      history_of (user_responses (chat_turns w u ts)) u = drop 2 rs"
  proof
    assume a: "user_responses w u = None \<and> length rs = 12
        \<and> chat_replies w u ts = map Inr rs"
    then have h: "history_of (user_responses w) u = []"
      by (simp add: history_of_def)
    have "history_of (user_responses (chat_turns w u ts)) u = foldl (deque_append 10) [] rs"
      using a chat_turns_answers [of w u ts rs] by (simp add: h)
    also have "\<dots> = drop (length ([] @ rs) - 10) ([] @ rs)"
      by (rule foldl_deque_append) simp
    finally show "history_of (user_responses (chat_turns w u ts)) u = drop 2 rs"
      using a by simp
  qed
  from c1 c2 c3 c4 c5 c6 c7 c8 c9 show ?thesis by (intro conjI)
qed

lemma twelve_not_recall:
  "\<forall>q \<in> set (map snd twelve_questions). strip (lower q) \<notin> set recall_phrases"
  by code_simp

lemma twelve_mixed_replies:
  "chat_replies (world_of store1) user1 twelve_mixed = map Inr twelve_replies"
  by code_simp

lemma greeting_reply:
  "snd (chat_endpoint (world_of store1) (env_at ''2024-05-01T09:00:00'') user1 ''hello'')
   = Inr greeting_text"
  by code_simp

theorem history_capacity_ten_witness:
  "histories_bounded (world_of store1)
   \<and> histories_bounded (fst (chat_endpoint (world_of store1) (env_at ''2024-05-01T09:00:00'') user1 ''hello''))
   \<and> user_questions (world_of store1) user1 = None
   \<and> length twelve_questions = 12
   \<and> history_of (user_questions (chat_turns (world_of store1) user1 twelve_questions)) user1
     = [''q3'', ''q4'', ''q5'', ''q6'', ''q7'', ''q8'', ''q9'', ''q10'', ''q11'', ''q12'']
   \<and> history_of (user_responses
        (fst (chat_endpoint (world_of store1) (env_at ''2024-05-01T09:00:00'') user1 ''hello'')))
        user1
     = [greeting_text]
   \<and> chat_replies (world_of store1) user1 twelve_mixed = map Inr twelve_replies
   \<and> history_of (user_responses (chat_turns (world_of store1) user1 twelve_mixed)) user1
     = [''Warehouses in Sector 1 are: Warehouse 1.'',
        unknown_text, greeting_text, unknown_text,
        ''Your created sectors are: Sector 1, Sector 12.'',
        unknown_text, unknown_text, greeting_text, unknown_text,
        ''You don't have any warehouses in Sector Sector 12.'']"
proof -
  have b: "histories_bounded (world_of store1)"
    by (simp add: histories_bounded_def world_of_def history_of_def)
  have n: "user_questions (world_of store1) user1 = None"
    by (simp add: world_of_def)
  have n': "user_responses (world_of store1) user1 = None"
    by (simp add: world_of_def)
  have h': "history_of (user_responses (world_of store1)) user1 = []"
    by (simp add: world_of_def history_of_def)
  have l: "length twelve_questions = 12"
    by (simp add: twelve_questions_def)
  have l': "length twelve_replies = 12"
    by (simp add: twelve_replies_def)
  have d: "drop 2 (map snd twelve_questions)
           = [''q3'', ''q4'', ''q5'', ''q6'', ''q7'', ''q8'', ''q9'', ''q10'', ''q11'', ''q12'']"
    by (simp add: twelve_questions_def)
  have d': "drop 2 twelve_replies
           = [''Warehouses in Sector 1 are: Warehouse 1.'',
              unknown_text, greeting_text, unknown_text,
              ''Your created sectors are: Sector 1, Sector 12.'',
              unknown_text, unknown_text, greeting_text, unknown_text,
              ''You don't have any warehouses in Sector Sector 12.'']"
    by (simp add: twelve_replies_def)
  have a1: "deque_append 10 [] greeting_text = [greeting_text]"
    by (simp add: deque_append_def)
  note q = history_capacity_ten [where xs = "[]" and x = "''q''" and w = "world_of store1"
      and env = "env_at ''2024-05-01T09:00:00''" and u = user1 and m = "''hello''"
      and ts = twelve_questions and u' = user1 and r = greeting_text and e = TypeError
      and rs = "[]"]
  note a = history_capacity_ten [where xs = "[]" and x = "''q''" and w = "world_of store1"
      and env = "env_at ''2024-05-01T09:00:00''" and u = user1 and m = "''hello''"
      and ts = twelve_mixed and u' = user1 and r = greeting_text and e = TypeError
      and rs = twelve_replies]
  have w1: "histories_bounded
              (fst (chat_endpoint (world_of store1) (env_at ''2024-05-01T09:00:00'') user1 ''hello''))"
    using q [THEN conjunct2, THEN conjunct1] b by simp
  have w2: "history_of (user_questions (chat_turns (world_of store1) user1 twelve_questions)) user1
     = [''q3'', ''q4'', ''q5'', ''q6'', ''q7'', ''q8'', ''q9'', ''q10'', ''q11'', ''q12'']"
    using q [THEN conjunct2, THEN conjunct2, THEN conjunct2, THEN conjunct1, THEN mp,
        OF conjI [OF n conjI [OF l twelve_not_recall]]] d
    by simp
  have w3: "history_of (user_responses
        (fst (chat_endpoint (world_of store1) (env_at ''2024-05-01T09:00:00'') user1 ''hello'')))
        user1 = [greeting_text]"
    using a [THEN conjunct2, THEN conjunct2, THEN conjunct2, THEN conjunct2, THEN conjunct2,
        THEN conjunct1, THEN mp, OF greeting_reply] h' a1
    by simp
  have w4: "history_of (user_responses (chat_turns (world_of store1) user1 twelve_mixed)) user1
     = [''Warehouses in Sector 1 are: Warehouse 1.'',
        unknown_text, greeting_text, unknown_text,
        ''Your created sectors are: Sector 1, Sector 12.'',
        unknown_text, unknown_text, greeting_text, unknown_text,
        ''You don't have any warehouses in Sector Sector 12.'']"
    using a [THEN conjunct2, THEN conjunct2, THEN conjunct2, THEN conjunct2, THEN conjunct2,
        THEN conjunct2, THEN conjunct2, THEN conjunct2, THEN mp,
        OF conjI [OF n' conjI [OF l' twelve_mixed_replies]]] d'
    by (simp only:)
  from b w1 n l w2 w3 twelve_mixed_replies w4 show ?thesis by (intro conjI)
qed

subsection \<open>Sector resolution\<close>

lemma find_SomeD: "find P xs = Some x \<Longrightarrow> x \<in> set xs \<and> P x"
  by (auto simp: find_Some_iff)

lemma find_exists: "\<exists>x \<in> set xs. P x \<Longrightarrow> \<exists>y. find P xs = Some y"
  by (cases "find P xs") (auto simp: find_None_iff)

lemma exact_tier_scoped:
  "sectors_find_one_exact d name obj = Inr (Some s) \<Longrightarrow>
   s \<in> set (sectors d) \<and> owned_live obj s \<and> s_name s = name"
  by (auto simp: sectors_find_one_exact_def split: if_splits dest: find_SomeD)

lemma regex_tier_scoped:
  "sectors_find_one_regex d name obj = Inr (Some s) \<Longrightarrow>
   s \<in> set (sectors d) \<and> owned_live obj s \<and> regex_i name (s_name s)"
  by (auto simp: sectors_find_one_regex_def split: if_splits dest: find_SomeD)

lemma scan_tier_scoped:
  "sectors_find d obj = Inr l \<Longrightarrow> s \<in> set l \<Longrightarrow> s \<in> set (sectors d) \<and> owned_live obj s"
  by (auto simp: sectors_find_def split: if_splits)

lemma parse_sector_id_try_scoped:
  assumes "parse_sector_id_try d name uid = Inr (Some i)"
  shows "\<exists>obj s. ObjectId uid = Inr obj \<and> s \<in> set (sectors d) \<and> owned_live obj s \<and> s_id s = i"
proof -
  from assms obtain obj where obj: "ObjectId uid = Inr obj"
    by (auto simp: parse_sector_id_try_def split: sum.splits)
  from assms obj obtain r1 where r1: "sectors_find_one_exact d name obj = Inr r1"
    by (auto simp: parse_sector_id_try_def split: sum.splits)
  show ?thesis
  proof (cases r1)
    case (Some s)
    with assms obj r1 have "s_id s = i"
      by (simp add: parse_sector_id_try_def)
    with exact_tier_scoped[of d name obj s] r1 Some obj show ?thesis by blast
  next
    case None
    with assms obj r1 obtain r2 where r2: "sectors_find_one_regex d name obj = Inr r2"
      by (auto simp: parse_sector_id_try_def split: sum.splits)
    show ?thesis
    proof (cases r2)
      case (Some s)
      with assms obj r1 r2 None have "s_id s = i"
        by (simp add: parse_sector_id_try_def)
      with regex_tier_scoped[of d name obj s] r2 Some obj show ?thesis by blast
    next
      case n2: None
      from assms obj r1 r2 None n2 obtain l s where
        l: "sectors_find d obj = Inr l"
        and s: "find (\<lambda>s. endswith (s_name s) (sector_num_of name)) l = Some s" "s_id s = i"
        by (auto simp: parse_sector_id_try_def split: sum.splits if_splits option.splits)
      from s have "s \<in> set l" by (auto dest: find_SomeD)
      with scan_tier_scoped[OF l] s obj show ?thesis by blast
    qed
  qed
qed

lemma parse_sector_id_scoped:
  assumes "parse_sector_id d name uid = Some i"
  shows "\<exists>obj s. ObjectId uid = Inr obj \<and> s \<in> set (sectors d) \<and> owned_live obj s \<and> s_id s = i"
  using assms parse_sector_id_try_scoped[of d name uid i]
  by (auto simp: parse_sector_id_def split: sum.splits)

text \<open>
  Claim C1. Every tier of \<open>parse_sector_id\<close> (the exact lookup, the case-insensitive lookup
  and the numeric-suffix scan) yields only sectors of the store whose creator is the
  requesting user and whose deleted flag is false; so an identifier returned by
  \<open>parse_sector_id\<close> is the identifier of such a sector. With unique identifiers in the
  collection, a sector of another user is never the result, whatever its name.
\<close>

theorem resolve_sector_owner_scoped:
  "(sectors_find_one_exact d name obj = Inr (Some s) \<longrightarrow>
      s \<in> set (sectors d) \<and> s_creator s = obj \<and> \<not> s_deleted s)
   \<and> (sectors_find_one_regex d name obj = Inr (Some s) \<longrightarrow>
      s \<in> set (sectors d) \<and> s_creator s = obj \<and> \<not> s_deleted s)
   \<and> (sectors_find d obj = Inr l \<and> s \<in> set l \<longrightarrow>
      s \<in> set (sectors d) \<and> s_creator s = obj \<and> \<not> s_deleted s)
   \<and> (parse_sector_id d name uid = Some i \<longrightarrow>
      (\<exists>s \<in> set (sectors d). s_id s = i \<and> ObjectId uid = Inr (s_creator s) \<and> \<not> s_deleted s))
   \<and> (distinct (map s_id (sectors d)) \<and> ObjectId uid = Inr obj \<and> s2 \<in> set (sectors d)
        \<and> s_creator s2 \<noteq> obj \<longrightarrow>
      parse_sector_id d name uid \<noteq> Some (s_id s2))"
proof -
  have t1: "sectors_find_one_exact d name obj = Inr (Some s) \<longrightarrow>
      s \<in> set (sectors d) \<and> s_creator s = obj \<and> \<not> s_deleted s"
    using exact_tier_scoped[of d name obj s] by (simp add: owned_live_def)
  have t2: "sectors_find_one_regex d name obj = Inr (Some s) \<longrightarrow>
      s \<in> set (sectors d) \<and> s_creator s = obj \<and> \<not> s_deleted s"
    using regex_tier_scoped[of d name obj s] by (simp add: owned_live_def)
  have t3: "sectors_find d obj = Inr l \<and> s \<in> set l \<longrightarrow>
      s \<in> set (sectors d) \<and> s_creator s = obj \<and> \<not> s_deleted s"
    using scan_tier_scoped[of d obj l s] by (simp add: owned_live_def)
  have all: "parse_sector_id d name uid = Some i \<longrightarrow>
      (\<exists>s \<in> set (sectors d). s_id s = i \<and> ObjectId uid = Inr (s_creator s) \<and> \<not> s_deleted s)"
    using parse_sector_id_scoped[of d name uid i] by (auto simp: owned_live_def)
  have iso: "distinct (map s_id (sectors d)) \<and> ObjectId uid = Inr obj \<and> s2 \<in> set (sectors d)
        \<and> s_creator s2 \<noteq> obj \<longrightarrow>
      parse_sector_id d name uid \<noteq> Some (s_id s2)"
  proof (intro impI notI)
    assume a: "distinct (map s_id (sectors d)) \<and> ObjectId uid = Inr obj \<and> s2 \<in> set (sectors d)
        \<and> s_creator s2 \<noteq> obj"
    assume "parse_sector_id d name uid = Some (s_id s2)"
    then obtain s where s: "s \<in> set (sectors d)" "owned_live obj s" "s_id s = s_id s2"
      using parse_sector_id_scoped[of d name uid "s_id s2"] a by auto
    from a s have "s = s2"
      by (meson distinct_map inj_onD)
    with s a show False by (simp add: owned_live_def)
  qed
  from t1 t2 t3 all iso show ?thesis by (intro conjI)
qed

lemma store1_distinct: "distinct (map s_id (sectors store1))"
  by (simp add: store1_def sid1_def sid2_def sid3_def sid5_def)

lemma user1_oid: "ObjectId user1 = Inr user1"
  by code_simp

lemma resolve_store1_user1: "parse_sector_id store1 ''Sector 1'' user1 = Some sid1"
  by code_simp

theorem resolve_sector_owner_scoped_witness:
  "parse_sector_id store1 ''Sector 1'' user1 = Some sid1
   \<and> (\<exists>s \<in> set (sectors store1). s_id s = sid1 \<and> ObjectId user1 = Inr (s_creator s) \<and> \<not> s_deleted s)
   \<and> distinct (map s_id (sectors store1))
   \<and> \<lparr>s_id = sid2, s_name = ''Sector 1'', s_creator = user2, s_deleted = False\<rparr> \<in> set (sectors store1)
   \<and> user2 \<noteq> user1
   \<and> parse_sector_id store1 ''Sector 1'' user1 \<noteq> Some sid2"
proof -
  have m: "\<lparr>s_id = sid2, s_name = ''Sector 1'', s_creator = user2, s_deleted = False\<rparr> \<in> set (sectors store1)"
    by (simp add: store1_def)
  have n: "user2 \<noteq> user1" by (simp add: user1_def user2_def)
  show ?thesis
    using resolve_sector_owner_scoped [of store1 "''Sector 1''" user1
        "\<lparr>s_id = sid1, s_name = ''Sector 1'', s_creator = user1, s_deleted = False\<rparr>"
        "[]" user1 sid1  "\<lparr>s_id = sid2, s_name = ''Sector 1'', s_creator = user2, s_deleted = False\<rparr>"]
      store1_distinct user1_oid resolve_store1_user1 m n
    by simp
qed


lemma faults_update_finds:
  "sectors_find_one_exact (d\<lparr>faults := F\<rparr>) name obj
   = (if SectorFindExact \<in> F then Inl StoreError
      else Inr (find (\<lambda>s. s_name s = name \<and> owned_live obj s) (sectors d)))"
  "sectors_find_one_regex (d\<lparr>faults := F\<rparr>) name obj
   = (if SectorFindRegex \<in> F then Inl StoreError
      else Inr (find (\<lambda>s. regex_i name (s_name s) \<and> owned_live obj s) (sectors d)))"
  by (simp_all add: sectors_find_one_exact_def sectors_find_one_regex_def)

lemma exact_hit:
  assumes "ObjectId uid = Inr obj" "sectors_find_one_exact d name obj = Inr (Some s)"
  shows "parse_sector_id d name uid = Some (s_id s)"
  using assms by (simp add: parse_sector_id_def parse_sector_id_try_def)

lemma regex_hit:
  assumes "ObjectId uid = Inr obj" "sectors_find_one_exact d name obj = Inr None"
    "sectors_find_one_regex d name obj = Inr (Some s)"
  shows "parse_sector_id d name uid = Some (s_id s)"
  using assms by (simp add: parse_sector_id_def parse_sector_id_try_def)

lemma scan_result:
  assumes "ObjectId uid = Inr obj" "sectors_find_one_exact d name obj = Inr None"
    "sectors_find_one_regex d name obj = Inr None" "sectors_find d obj = Inr all"
  shows "parse_sector_id d name uid
         = (if startswith name ''Sector ''
            then map_option s_id (find (\<lambda>s. endswith (s_name s) (sector_num_of name)) all)
            else None)"
  using assms by (simp add: parse_sector_id_def parse_sector_id_try_def split: option.splits)

lemma regex_i_refl: "regex_i name name"
  by (simp add: regex_i_def)

lemma parse_exact_store:
  assumes "ObjectId uid = Inr obj" "SectorFindExact \<notin> F"
    and "find (\<lambda>s. s_name s = name \<and> owned_live obj s) (sectors d) = Some t"
  shows "parse_sector_id (d\<lparr>faults := F\<rparr>) name uid = Some (s_id t)"
proof -
  have "sectors_find_one_exact (d\<lparr>faults := F\<rparr>) name obj = Inr (Some t)"
    using assms(2,3) by (simp add: faults_update_finds)
  with assms(1) show ?thesis by (rule exact_hit)
qed

lemma parse_regex_store:
  assumes "ObjectId uid = Inr obj" "SectorFindExact \<notin> F" "SectorFindRegex \<notin> F"
    and "find (\<lambda>s. s_name s = name \<and> owned_live obj s) (sectors d) = None"
    and "find (\<lambda>s. regex_i name (s_name s) \<and> owned_live obj s) (sectors d) = Some t"
  shows "parse_sector_id (d\<lparr>faults := F\<rparr>) name uid = Some (s_id t)"
proof -
  have e: "sectors_find_one_exact (d\<lparr>faults := F\<rparr>) name obj = Inr None"
    using assms(2,4) by (simp add: faults_update_finds)
  have r: "sectors_find_one_regex (d\<lparr>faults := F\<rparr>) name obj = Inr (Some t)"
    using assms(3,5) by (simp add: faults_update_finds)
  from assms(1) e r show ?thesis by (rule regex_hit)
qed

lemma parse_scan_store:
  assumes "ObjectId uid = Inr obj"
    and "SectorFindExact \<notin> F" "SectorFindRegex \<notin> F" "SectorFindAll \<notin> F"
    and "find (\<lambda>s. s_name s = name \<and> owned_live obj s) (sectors d) = None"
    and "find (\<lambda>s. regex_i name (s_name s) \<and> owned_live obj s) (sectors d) = None"
  shows "parse_sector_id (d\<lparr>faults := F\<rparr>) name uid
         = (if startswith name ''Sector ''
            then map_option s_id
                   (find (\<lambda>s. endswith (s_name s) (sector_num_of name))
                      (filter (owned_live obj) (sectors d)))
            else None)"
proof -
  have e: "sectors_find_one_exact (d\<lparr>faults := F\<rparr>) name obj = Inr None"
    using assms(2,5) by (simp add: faults_update_finds)
  have r: "sectors_find_one_regex (d\<lparr>faults := F\<rparr>) name obj = Inr None"
    using assms(3,6) by (simp add: faults_update_finds)
  have a: "sectors_find (d\<lparr>faults := F\<rparr>) obj = Inr (filter (owned_live obj) (sectors d))"
    using assms(4) by (simp add: sectors_find_def)
  from assms(1) e r a show ?thesis by (rule scan_result)
qed

text \<open>
  Claim C5. The tiers are evaluated in order and evaluation stops at the first success: a hit
  of the exact lookup is the result whatever the later store operations would do (they may
  even be failing); without an exact hit, a hit of the case-insensitive lookup is the result
  whatever the scan would do; only when both find nothing does the scan decide, and only for
  a name that starts with \<open>Sector \<close>. In terms of the stored sectors: when the user owns a
  live sector named exactly as the token, the result is the first such sector, also when a
  case variant is stored before it; when no owned live sector has that exact name and one
  matches up to letter case, the result is the first such match; when none matches up to
  letter case, the scan decides. Hence, for a user who owns a live sector whose name equals
  the token up to letter case, the result is such a sector and the scan is not consulted:
  the result is the same when the scan operation is set to fail.
\<close>

theorem resolve_sector_tiers_in_order:
  assumes "ObjectId uid = Inr obj"
  shows
  "(sectors_find_one_exact d name obj = Inr (Some s) \<longrightarrow>
      parse_sector_id d name uid = Some (s_id s)
      \<and> (\<forall>F. SectorFindExact \<notin> F \<longrightarrow>
             parse_sector_id (d\<lparr>faults := F\<rparr>) name uid = Some (s_id s)))
   \<and> (sectors_find_one_exact d name obj = Inr None
        \<and> sectors_find_one_regex d name obj = Inr (Some s) \<longrightarrow>
      parse_sector_id d name uid = Some (s_id s)
      \<and> (\<forall>F. SectorFindExact \<notin> F \<and> SectorFindRegex \<notin> F \<longrightarrow>
             parse_sector_id (d\<lparr>faults := F\<rparr>) name uid = Some (s_id s)))
   \<and> (sectors_find_one_exact d name obj = Inr None
        \<and> sectors_find_one_regex d name obj = Inr None
        \<and> sectors_find d obj = Inr all \<longrightarrow>
      parse_sector_id d name uid
      = (if startswith name ''Sector ''
         then map_option s_id (find (\<lambda>s. endswith (s_name s) (sector_num_of name)) all)
         else None))
   \<and> ((\<exists>t \<in> set (sectors d). owned_live obj t \<and> regex_i name (s_name t)) \<longrightarrow>
      (\<forall>F. SectorFindExact \<notin> F \<and> SectorFindRegex \<notin> F \<longrightarrow>
         (\<exists>t \<in> set (sectors d). owned_live obj t \<and> regex_i name (s_name t)
            \<and> parse_sector_id (d\<lparr>faults := F\<rparr>) name uid = Some (s_id t))))
   \<and> ((\<exists>t \<in> set (sectors d). owned_live obj t \<and> s_name t = name) \<longrightarrow>
        (\<forall>F. SectorFindExact \<notin> F \<longrightarrow>
           parse_sector_id (d\<lparr>faults := F\<rparr>) name uid
           = map_option s_id (find (\<lambda>s. s_name s = name \<and> owned_live obj s) (sectors d))
           \<and> (\<exists>t \<in> set (sectors d). owned_live obj t \<and> s_name t = name
                \<and> parse_sector_id (d\<lparr>faults := F\<rparr>) name uid = Some (s_id t))))
   \<and> ((\<forall>t \<in> set (sectors d). owned_live obj t \<longrightarrow> s_name t \<noteq> name)
        \<and> (\<exists>t \<in> set (sectors d). owned_live obj t \<and> regex_i name (s_name t)) \<longrightarrow>
        (\<forall>F. SectorFindExact \<notin> F \<and> SectorFindRegex \<notin> F \<longrightarrow>
           parse_sector_id (d\<lparr>faults := F\<rparr>) name uid
           = map_option s_id
               (find (\<lambda>s. regex_i name (s_name s) \<and> owned_live obj s) (sectors d))))
   \<and> ((\<forall>t \<in> set (sectors d). owned_live obj t \<longrightarrow> \<not> regex_i name (s_name t)) \<longrightarrow>
        (\<forall>F. SectorFindExact \<notin> F \<and> SectorFindRegex \<notin> F \<and> SectorFindAll \<notin> F \<longrightarrow>
           parse_sector_id (d\<lparr>faults := F\<rparr>) name uid
           = (if startswith name ''Sector ''
              then map_option s_id
                     (find (\<lambda>s. endswith (s_name s) (sector_num_of name))
                        (filter (owned_live obj) (sectors d)))
              else None)))"
proof -
  have t1: "sectors_find_one_exact d name obj = Inr (Some s) \<longrightarrow>
      parse_sector_id d name uid = Some (s_id s)
      \<and> (\<forall>F. SectorFindExact \<notin> F \<longrightarrow>
             parse_sector_id (d\<lparr>faults := F\<rparr>) name uid = Some (s_id s))"
  proof (intro impI conjI allI)
    assume e: "sectors_find_one_exact d name obj = Inr (Some s)"
    show "parse_sector_id d name uid = Some (s_id s)"
      using assms e by (rule exact_hit)
    fix F assume "SectorFindExact \<notin> F"
    with e have "sectors_find_one_exact (d\<lparr>faults := F\<rparr>) name obj = Inr (Some s)"
      by (simp add: faults_update_finds) (simp add: sectors_find_one_exact_def split: if_splits)
    with assms show "parse_sector_id (d\<lparr>faults := F\<rparr>) name uid = Some (s_id s)"
      by (rule exact_hit)
  qed
  have t2: "sectors_find_one_exact d name obj = Inr None
        \<and> sectors_find_one_regex d name obj = Inr (Some s) \<longrightarrow>
      parse_sector_id d name uid = Some (s_id s)
      \<and> (\<forall>F. SectorFindExact \<notin> F \<and> SectorFindRegex \<notin> F \<longrightarrow>
             parse_sector_id (d\<lparr>faults := F\<rparr>) name uid = Some (s_id s))"
  proof (intro impI conjI allI)
    assume e: "sectors_find_one_exact d name obj = Inr None
        \<and> sectors_find_one_regex d name obj = Inr (Some s)"
    show "parse_sector_id d name uid = Some (s_id s)"
      using assms e by (simp add: regex_hit)
    fix F assume f: "SectorFindExact \<notin> F \<and> SectorFindRegex \<notin> F"
    from e f have "sectors_find_one_exact (d\<lparr>faults := F\<rparr>) name obj = Inr None"
      by (simp add: faults_update_finds) (simp add: sectors_find_one_exact_def split: if_splits)
    moreover from e f have "sectors_find_one_regex (d\<lparr>faults := F\<rparr>) name obj = Inr (Some s)"
      by (simp add: faults_update_finds) (simp add: sectors_find_one_regex_def split: if_splits)
    ultimately show "parse_sector_id (d\<lparr>faults := F\<rparr>) name uid = Some (s_id s)"
      using assms by (simp add: regex_hit)
  qed
  have t3: "sectors_find_one_exact d name obj = Inr None
        \<and> sectors_find_one_regex d name obj = Inr None
        \<and> sectors_find d obj = Inr all \<longrightarrow>
      parse_sector_id d name uid
      = (if startswith name ''Sector ''
         then map_option s_id (find (\<lambda>s. endswith (s_name s) (sector_num_of name)) all)
         else None)"
    using assms scan_result[of uid obj d name all] by blast
  have t4: "(\<exists>t \<in> set (sectors d). owned_live obj t \<and> regex_i name (s_name t)) \<longrightarrow>
      (\<forall>F. SectorFindExact \<notin> F \<and> SectorFindRegex \<notin> F \<longrightarrow>
         (\<exists>t \<in> set (sectors d). owned_live obj t \<and> regex_i name (s_name t)
            \<and> parse_sector_id (d\<lparr>faults := F\<rparr>) name uid = Some (s_id t)))"
  proof (intro impI allI)
    fix F
    assume ex: "\<exists>t \<in> set (sectors d). owned_live obj t \<and> regex_i name (s_name t)"
    assume f: "SectorFindExact \<notin> F \<and> SectorFindRegex \<notin> F"
    let ?d = "d\<lparr>faults := F\<rparr>"
    show "\<exists>t \<in> set (sectors d). owned_live obj t \<and> regex_i name (s_name t)
            \<and> parse_sector_id ?d name uid = Some (s_id t)"
    proof (cases "find (\<lambda>s. s_name s = name \<and> owned_live obj s) (sectors d)")
      case (Some t)
      then have e: "sectors_find_one_exact ?d name obj = Inr (Some t)"
        using f by (simp add: faults_update_finds)
      from Some have "t \<in> set (sectors d) \<and> owned_live obj t \<and> s_name t = name"
        by (auto dest: find_SomeD)
      moreover have "parse_sector_id ?d name uid = Some (s_id t)"
        using assms e by (rule exact_hit)
      ultimately show ?thesis using regex_i_refl by blast
    next
      case None
      then have e: "sectors_find_one_exact ?d name obj = Inr None"
        using f by (simp add: faults_update_finds)
      from ex obtain t where
        t: "find (\<lambda>s. regex_i name (s_name s) \<and> owned_live obj s) (sectors d) = Some t"
        using find_exists[of "sectors d" "\<lambda>s. regex_i name (s_name s) \<and> owned_live obj s"]
        by blast
      then have r: "sectors_find_one_regex ?d name obj = Inr (Some t)"
        using f by (simp add: faults_update_finds)
      from t have "t \<in> set (sectors d) \<and> owned_live obj t \<and> regex_i name (s_name t)"
        by (auto dest: find_SomeD)
      moreover have "parse_sector_id ?d name uid = Some (s_id t)"
        using assms e r by (rule regex_hit)
      ultimately show ?thesis by blast
    qed
  qed
  have t5: "((\<exists>t \<in> set (sectors d). owned_live obj t \<and> s_name t = name) \<longrightarrow>
      (\<forall>F. SectorFindExact \<notin> F \<longrightarrow>
         parse_sector_id (d\<lparr>faults := F\<rparr>) name uid
         = map_option s_id (find (\<lambda>s. s_name s = name \<and> owned_live obj s) (sectors d))
         \<and> (\<exists>t \<in> set (sectors d). owned_live obj t \<and> s_name t = name
              \<and> parse_sector_id (d\<lparr>faults := F\<rparr>) name uid = Some (s_id t))))"
  proof (intro impI allI)
    fix F
    assume ex: "\<exists>t \<in> set (sectors d). owned_live obj t \<and> s_name t = name"
      and f: "SectorFindExact \<notin> F"
    from ex obtain t where
      t: "find (\<lambda>s. s_name s = name \<and> owned_live obj s) (sectors d) = Some t"
      using find_exists[of "sectors d" "\<lambda>s. s_name s = name \<and> owned_live obj s"] by blast
    then have m: "t \<in> set (sectors d) \<and> owned_live obj t \<and> s_name t = name"
      by (auto dest: find_SomeD)
    have p: "parse_sector_id (d\<lparr>faults := F\<rparr>) name uid = Some (s_id t)"
      using assms f t by (rule parse_exact_store)
    show "parse_sector_id (d\<lparr>faults := F\<rparr>) name uid
         = map_option s_id (find (\<lambda>s. s_name s = name \<and> owned_live obj s) (sectors d))
         \<and> (\<exists>t \<in> set (sectors d). owned_live obj t \<and> s_name t = name
              \<and> parse_sector_id (d\<lparr>faults := F\<rparr>) name uid = Some (s_id t))"
      using m p t by auto
  qed
  have t6: "((\<forall>t \<in> set (sectors d). owned_live obj t \<longrightarrow> s_name t \<noteq> name)
      \<and> (\<exists>t \<in> set (sectors d). owned_live obj t \<and> regex_i name (s_name t)) \<longrightarrow>
      (\<forall>F. SectorFindExact \<notin> F \<and> SectorFindRegex \<notin> F \<longrightarrow>
         parse_sector_id (d\<lparr>faults := F\<rparr>) name uid
         = map_option s_id
             (find (\<lambda>s. regex_i name (s_name s) \<and> owned_live obj s) (sectors d))))"
  proof (intro impI allI)
    fix F
    assume a: "(\<forall>t \<in> set (sectors d). owned_live obj t \<longrightarrow> s_name t \<noteq> name)
      \<and> (\<exists>t \<in> set (sectors d). owned_live obj t \<and> regex_i name (s_name t))"
      and f: "SectorFindExact \<notin> F \<and> SectorFindRegex \<notin> F"
    from a have n: "find (\<lambda>s. s_name s = name \<and> owned_live obj s) (sectors d) = None"
      by (auto simp: find_None_iff)
    from a obtain t where
      t: "find (\<lambda>s. regex_i name (s_name s) \<and> owned_live obj s) (sectors d) = Some t"
      using find_exists[of "sectors d" "\<lambda>s. regex_i name (s_name s) \<and> owned_live obj s"]
      by blast
    have "parse_sector_id (d\<lparr>faults := F\<rparr>) name uid = Some (s_id t)"
      using assms f n t by (intro parse_regex_store) simp_all
    with t show "parse_sector_id (d\<lparr>faults := F\<rparr>) name uid
         = map_option s_id
             (find (\<lambda>s. regex_i name (s_name s) \<and> owned_live obj s) (sectors d))"
      by simp
  qed
  have t7: "((\<forall>t \<in> set (sectors d). owned_live obj t \<longrightarrow> \<not> regex_i name (s_name t)) \<longrightarrow>
      (\<forall>F. SectorFindExact \<notin> F \<and> SectorFindRegex \<notin> F \<and> SectorFindAll \<notin> F \<longrightarrow>
         parse_sector_id (d\<lparr>faults := F\<rparr>) name uid
         = (if startswith name ''Sector ''
            then map_option s_id
                   (find (\<lambda>s. endswith (s_name s) (sector_num_of name))
                      (filter (owned_live obj) (sectors d)))
            else None)))"
  proof (intro impI allI)
    fix F
    assume a: "\<forall>t \<in> set (sectors d). owned_live obj t \<longrightarrow> \<not> regex_i name (s_name t)"
      and f: "SectorFindExact \<notin> F \<and> SectorFindRegex \<notin> F \<and> SectorFindAll \<notin> F"
    from a have r: "find (\<lambda>s. regex_i name (s_name s) \<and> owned_live obj s) (sectors d) = None"
      by (auto simp: find_None_iff)
    from a have n: "find (\<lambda>s. s_name s = name \<and> owned_live obj s) (sectors d) = None"
      using regex_i_refl[of name] by (auto simp: find_None_iff)
    show "parse_sector_id (d\<lparr>faults := F\<rparr>) name uid
         = (if startswith name ''Sector ''
            then map_option s_id
                   (find (\<lambda>s. endswith (s_name s) (sector_num_of name))
                      (filter (owned_live obj) (sectors d)))
            else None)"
      using assms f n r by (intro parse_scan_store) simp_all
  qed
  from t1 t2 t3 t4 t5 t6 t7 show ?thesis by (intro conjI)
qed

lemma store2_exact_miss: "sectors_find_one_exact store2 ''Sector 2'' user1 = Inr None"
  by code_simp

lemma store2_regex_hit:
  "sectors_find_one_regex store2 ''Sector 2'' user1
   = Inr (Some \<lparr>s_id = sid4, s_name = ''sector 2'', s_creator = user1, s_deleted = False\<rparr>)"
  by code_simp

lemma store2_scan_would_match:
  "find (\<lambda>s. endswith (s_name s) (sector_num_of ''Sector 2''))
     (filter (owned_live user1) (sectors store2))
   = Some \<lparr>s_id = sid3, s_name = ''Sector 12'', s_creator = user1, s_deleted = False\<rparr>"
  by code_simp

lemma store3_exact_hit:
  "find (\<lambda>s. s_name s = ''Sector 12'' \<and> owned_live user1 s) (sectors store3)
   = Some \<lparr>s_id = sid3, s_name = ''Sector 12'', s_creator = user1, s_deleted = False\<rparr>"
  by code_simp

lemma store3_variant_first:
  "find (\<lambda>s. regex_i ''Sector 12'' (s_name s) \<and> owned_live user1 s) (sectors store3)
   = Some \<lparr>s_id = sid6, s_name = ''SECTOR 12'', s_creator = user1, s_deleted = False\<rparr>"
  by code_simp

lemma store3_owns_sector_12:
  "\<exists>t \<in> set (sectors store3). owned_live user1 t \<and> s_name t = ''Sector 12''"
  by (rule bexI[of _ "\<lparr>s_id = sid3, s_name = ''Sector 12'', s_creator = user1, s_deleted = False\<rparr>"])
     (simp_all add: store3_def store1_def owned_live_def)

lemma store2_no_exact:
  "find (\<lambda>s. s_name s = ''Sector 2'' \<and> owned_live user1 s) (sectors store2) = None"
  by code_simp

lemma store2_regex_find:
  "find (\<lambda>s. regex_i ''Sector 2'' (s_name s) \<and> owned_live user1 s) (sectors store2)
   = Some \<lparr>s_id = sid4, s_name = ''sector 2'', s_creator = user1, s_deleted = False\<rparr>"
  by code_simp

lemma store1_no_regex:
  "find (\<lambda>s. regex_i ''Sector 2'' (s_name s) \<and> owned_live user1 s) (sectors store1) = None"
  by code_simp

lemma store1_scan_find:
  "find (\<lambda>s. endswith (s_name s) (sector_num_of ''Sector 2''))
     (filter (owned_live user1) (sectors store1))
   = Some \<lparr>s_id = sid3, s_name = ''Sector 12'', s_creator = user1, s_deleted = False\<rparr>"
  by code_simp

lemma store3_resolves_exact: "parse_sector_id store3 ''Sector 12'' user1 = Some sid3"
  by code_simp

lemma store2_no_exact_owned:
  "\<forall>t \<in> set (sectors store2). owned_live user1 t \<longrightarrow> s_name t \<noteq> ''Sector 2''"
  by code_simp

lemma store2_owns_variant:
  "\<exists>t \<in> set (sectors store2). owned_live user1 t \<and> regex_i ''Sector 2'' (s_name t)"
  by code_simp

lemma store1_no_variant:
  "\<forall>t \<in> set (sectors store1). owned_live user1 t \<longrightarrow> \<not> regex_i ''Sector 2'' (s_name t)"
  by code_simp

lemma sector_2_prefixed: "startswith ''Sector 2'' ''Sector ''"
  by code_simp

theorem resolve_sector_tiers_in_order_witness:
  "ObjectId user1 = Inr user1
   \<and> find (\<lambda>s. regex_i ''Sector 12'' (s_name s) \<and> owned_live user1 s) (sectors store3)
     = Some \<lparr>s_id = sid6, s_name = ''SECTOR 12'', s_creator = user1, s_deleted = False\<rparr>
   \<and> parse_sector_id store3 ''Sector 12'' user1 = Some sid3
   \<and> parse_sector_id (store3\<lparr>faults := {SectorFindRegex, SectorFindAll}\<rparr>) ''Sector 12'' user1
     = Some sid3
   \<and> sectors_find_one_exact store2 ''Sector 2'' user1 = Inr None
   \<and> sectors_find_one_regex store2 ''Sector 2'' user1
     = Inr (Some \<lparr>s_id = sid4, s_name = ''sector 2'', s_creator = user1, s_deleted = False\<rparr>)
   \<and> find (\<lambda>s. endswith (s_name s) (sector_num_of ''Sector 2''))
         (filter (owned_live user1) (sectors store2))
     = Some \<lparr>s_id = sid3, s_name = ''Sector 12'', s_creator = user1, s_deleted = False\<rparr>
   \<and> parse_sector_id store2 ''Sector 2'' user1 = Some sid4
   \<and> parse_sector_id (store2\<lparr>faults := {SectorFindAll}\<rparr>) ''Sector 2'' user1 = Some sid4
   \<and> parse_sector_id (store1\<lparr>faults := {}\<rparr>) ''Sector 2'' user1 = Some sid3"
proof -
  note t3 = resolve_sector_tiers_in_order [OF user1_oid, of store3 "''Sector 12''"
      "\<lparr>s_id = sid3, s_name = ''Sector 12'', s_creator = user1, s_deleted = False\<rparr>" "[]"]
  note t2 = resolve_sector_tiers_in_order [OF user1_oid, of store2 "''Sector 2''"
      "\<lparr>s_id = sid4, s_name = ''sector 2'', s_creator = user1, s_deleted = False\<rparr>" "[]"]
  note t1 = resolve_sector_tiers_in_order [OF user1_oid, of store1 "''Sector 2''"
      "\<lparr>s_id = sid3, s_name = ''Sector 12'', s_creator = user1, s_deleted = False\<rparr>" "[]"]
  have exact: "parse_sector_id (store3\<lparr>faults := {SectorFindRegex, SectorFindAll}\<rparr>)
                 ''Sector 12'' user1 = Some sid3"
    using t3 [THEN conjunct2, THEN conjunct2, THEN conjunct2, THEN conjunct2, THEN conjunct1,
        THEN mp, OF store3_owns_sector_12, THEN spec, of "{SectorFindRegex, SectorFindAll}"]
      store3_exact_hit
    by simp
  have variant: "parse_sector_id (store2\<lparr>faults := {SectorFindAll}\<rparr>) ''Sector 2'' user1
                 = Some sid4"
    using t2 [THEN conjunct2, THEN conjunct2, THEN conjunct2, THEN conjunct2, THEN conjunct2,
        THEN conjunct1, THEN mp, OF conjI [OF store2_no_exact_owned store2_owns_variant],
        THEN spec, of "{SectorFindAll}"]
      store2_regex_find
    by simp
  have scan: "parse_sector_id (store1\<lparr>faults := {}\<rparr>) ''Sector 2'' user1 = Some sid3"
    using t1 [THEN conjunct2, THEN conjunct2, THEN conjunct2, THEN conjunct2, THEN conjunct2,
        THEN conjunct2, THEN mp, OF store1_no_variant, THEN spec, of "{}"]
      store1_scan_find sector_2_prefixed
    by simp
  have plain: "parse_sector_id store2 ''Sector 2'' user1 = Some sid4"
    using t2 [THEN conjunct2, THEN conjunct1] store2_exact_miss store2_regex_hit by simp
  show ?thesis
    using user1_oid store3_variant_first store3_resolves_exact exact store2_exact_miss
      store2_regex_hit store2_scan_would_match plain variant scan
    by (intro conjI)
qed

lemma store1_no_sector_2: "\<forall>s \<in> set (sectors store1). s_name s \<noteq> ''Sector 2''"
  by (simp add: store1_def)

lemma store1_exact_miss: "sectors_find_one_exact store1 ''Sector 2'' user1 = Inr None"
  by code_simp

lemma store1_regex_miss: "sectors_find_one_regex store1 ''Sector 2'' user1 = Inr None"
  by code_simp

lemma store1_scan:
  "sectors_find store1 user1
   = Inr [\<lparr>s_id = sid1, s_name = ''Sector 1'', s_creator = user1, s_deleted = False\<rparr>,
          \<lparr>s_id = sid3, s_name = ''Sector 12'', s_creator = user1, s_deleted = False\<rparr>]"
  by code_simp

lemma store1_suffix_2:
  "find (\<lambda>s. endswith (s_name s) (sector_num_of ''Sector 2''))
     [\<lparr>s_id = sid1, s_name = ''Sector 1'', s_creator = user1, s_deleted = False\<rparr>,
      \<lparr>s_id = sid3, s_name = ''Sector 12'', s_creator = user1, s_deleted = False\<rparr>]
   = Some \<lparr>s_id = sid3, s_name = ''Sector 12'', s_creator = user1, s_deleted = False\<rparr>"
  by code_simp

lemma store1_resolves_sector_12: "parse_sector_id store1 ''Sector 2'' user1 = Some sid3"
  by code_simp

text \<open>
  Claim C9. When the first two tiers find nothing and the name starts with \<open>Sector \<close>, the
  result is the first live sector of the user whose name ends with the rest of the token,
  whether or not that name equals the token. In \<open>store1\<close>, where user1 owns \<open>Sector 12\<close> and
  nobody owns a \<open>Sector 2\<close>, resolving \<open>Sector 2\<close> yields \<open>Sector 12\<close>.
\<close>

theorem numeric_suffix_accepts_ending:
  "(ObjectId uid = Inr obj
      \<and> sectors_find_one_exact d name obj = Inr None
      \<and> sectors_find_one_regex d name obj = Inr None
      \<and> sectors_find d obj = Inr all
      \<and> startswith name ''Sector '' \<longrightarrow>
    parse_sector_id d name uid
    = map_option s_id (find (\<lambda>s. endswith (s_name s) (sector_num_of name)) all))
   \<and> (\<forall>s \<in> set (sectors store1). s_name s \<noteq> ''Sector 2'')
   \<and> (\<exists>s \<in> set (sectors store1).
         s_name s = ''Sector 12'' \<and> s_creator s = user1 \<and> \<not> s_deleted s
         \<and> parse_sector_id store1 ''Sector 2'' user1 = Some (s_id s))"
proof -
  have g: "ObjectId uid = Inr obj
      \<and> sectors_find_one_exact d name obj = Inr None
      \<and> sectors_find_one_regex d name obj = Inr None
      \<and> sectors_find d obj = Inr all
      \<and> startswith name ''Sector '' \<longrightarrow>
    parse_sector_id d name uid
    = map_option s_id (find (\<lambda>s. endswith (s_name s) (sector_num_of name)) all)"
    using scan_result[of uid obj d name all] by simp
  have m: "\<lparr>s_id = sid3, s_name = ''Sector 12'', s_creator = user1, s_deleted = False\<rparr>
           \<in> set (sectors store1)"
    by (simp add: store1_def)
  have e: "\<exists>s \<in> set (sectors store1).
         s_name s = ''Sector 12'' \<and> s_creator s = user1 \<and> \<not> s_deleted s
         \<and> parse_sector_id store1 ''Sector 2'' user1 = Some (s_id s)"
    using m store1_resolves_sector_12 by (intro bexI[OF _ m]) simp
  from g store1_no_sector_2 e show ?thesis by (intro conjI)
qed

theorem numeric_suffix_accepts_ending_witness:
  "ObjectId user1 = Inr user1
   \<and> sectors_find_one_exact store1 ''Sector 2'' user1 = Inr None
   \<and> sectors_find_one_regex store1 ''Sector 2'' user1 = Inr None
   \<and> startswith ''Sector 2'' ''Sector ''
   \<and> sector_num_of ''Sector 2'' = ''2''
   \<and> endswith ''Sector 12'' ''2''
   \<and> parse_sector_id store1 ''Sector 2'' user1 = Some sid3"
proof -
  have s: "startswith ''Sector 2'' ''Sector ''" by code_simp
  have n: "sector_num_of ''Sector 2'' = ''2''" by code_simp
  have w: "endswith ''Sector 12'' ''2''" by code_simp
  show ?thesis
    using numeric_suffix_accepts_ending [of user1 user1 store1 "''Sector 2''"
        "[\<lparr>s_id = sid1, s_name = ''Sector 1'', s_creator = user1, s_deleted = False\<rparr>,
          \<lparr>s_id = sid3, s_name = ''Sector 12'', s_creator = user1, s_deleted = False\<rparr>]"]
      user1_oid store1_exact_miss store1_regex_miss store1_scan store1_suffix_2 s n w
    by simp
qed

subsection \<open>Turns of the conversation\<close>

lemma record_question_states [simp]:
  "conversation_states (record_question w u m) = conversation_states w"
  "db (record_question w u m) = db w"
  by (simp_all add: record_question_def Let_def)

lemma chat_endpoint_collecting:
  assumes "conversation_states w u = Some st" "stage st = collecting_inventory"
  shows "chat_endpoint w env u m = collect_inventory (record_question w u m) env u m st"
  using assms by (simp add: chat_endpoint_def Let_def get_conversation_state_def)

lemma chat_endpoint_idle:
  assumes "stage (session_of w env u) \<noteq> collecting_inventory"
  shows "chat_endpoint w env u m
         = dispatch (fst (get_conversation_state (record_question w u m) env u)) u
             (session_of w env u) (detect_intent m)"
  using assms
  by (cases "conversation_states w u")
     (simp_all add: chat_endpoint_def Let_def get_conversation_state_def session_of_def)

lemma get_conversation_state_session:
  "conversation_states (fst (get_conversation_state w env u))
   = (conversation_states w)(u \<mapsto> session_of w env u)"
  by (cases "conversation_states w u")
     (auto simp: get_conversation_state_def session_of_def)

text \<open>
  Claim C4. In a session that is collecting inventory, a reply whose stripped text is not a
  float literal gets the fixed message asking for a valid number, and the turn changes no
  session and not the store: stage, cursor, pending columns, active warehouse and sector and
  the record under construction stay as they were. The empty string, a word and two numbers
  are such replies.
\<close>

theorem invalid_number_keeps_session:
  assumes "conversation_states w u = Some st"
    and "stage st = collecting_inventory"
    and "py_float (strip m) = None"
  shows "snd (chat_endpoint w env u m)
           = Inr ''Please provide a valid number for the inventory count.''
         \<and> conversation_states (fst (chat_endpoint w env u m)) = conversation_states w
         \<and> db (fst (chat_endpoint w env u m)) = db w
         \<and> py_float (strip '''') = None
         \<and> py_float (strip ''twelve'') = None
         \<and> py_float (strip ''12 30'') = None"
proof -
  have c: "chat_endpoint w env u m
           = respond (record_question w u m) u
               ''Please provide a valid number for the inventory count.''"
    using assms by (simp add: chat_endpoint_collecting collect_inventory_def)
  have e: "py_float (strip '''') = None" by code_simp
  have t: "py_float (strip ''twelve'') = None" by code_simp
  have n: "py_float (strip ''12 30'') = None" by code_simp
  show ?thesis unfolding c using e t n by simp
qed

lemma collecting_world_session:
  "conversation_states collecting_world user1 = Some collecting_session"
  by (simp add: collecting_world_def)

theorem invalid_number_keeps_session_witness:
  "conversation_states collecting_world user1 = Some collecting_session
   \<and> stage collecting_session = collecting_inventory
   \<and> py_float (strip '' twelve '') = None
   \<and> snd (chat_endpoint collecting_world (env_at ''2024-05-01T09:05:00'') user1 '' twelve '')
       = Inr ''Please provide a valid number for the inventory count.''
   \<and> conversation_states
        (fst (chat_endpoint collecting_world (env_at ''2024-05-01T09:05:00'') user1 '' twelve ''))
        user1
       = Some collecting_session"
proof -
  have s: "stage collecting_session = collecting_inventory"
    by (simp add: collecting_session_def)
  have f: "py_float (strip '' twelve '') = None" by code_simp
  show ?thesis
    using invalid_number_keeps_session [OF collecting_world_session s f,
        of "env_at ''2024-05-01T09:05:00''"] collecting_world_session s f
    by simp
qed

lemma handle_list_warehouses_failed:
  "parse_sector_id (db w) sn u = None \<Longrightarrow>
   handle_list_warehouses_in_sector w u sn = respond w u (sector_not_found sn)"
  by (simp add: handle_list_warehouses_in_sector_def)

lemma handle_add_log_failed:
  "parse_sector_id (db w) sn u = None \<Longrightarrow>
   handle_add_log w u st wn sn = respond w u (sector_not_found sn)"
  by (simp add: handle_add_log_def)

text \<open>
  Claim C7, as amended. When resolving the sector raises (a failing store lookup, or any other
  exception inside \<open>parse_sector_id\<close>), the turn does not crash: \<open>parse_sector_id\<close> returns
  \<open>None\<close> and the reply is the not-found wording that names the sector; the store and the
  user's session are left as they were.
\<close>

theorem store_failure_reads_not_found:
  assumes "stage (session_of w env u) \<noteq> collecting_inventory"
    and "detect_intent m = list_warehouses_in_sector sn \<or> detect_intent m = add_log wn sn"
    and "parse_sector_id_try (db w) sn u = Inl e"
  shows "parse_sector_id (db w) sn u = None
         \<and> snd (chat_endpoint w env u m) = Inr (sector_not_found sn)
         \<and> db (fst (chat_endpoint w env u m)) = db w
         \<and> conversation_states (fst (chat_endpoint w env u m))
           = (conversation_states w)(u \<mapsto> session_of w env u)"
proof -
  let ?w2 = "fst (get_conversation_state (record_question w u m) env u)"
  have n: "parse_sector_id (db w) sn u = None"
    using assms(3) by (simp add: parse_sector_id_def)
  then have n2: "parse_sector_id (db ?w2) sn u = None" by simp
  have c: "chat_endpoint w env u m = respond ?w2 u (sector_not_found sn)"
    using assms(2) chat_endpoint_idle[OF assms(1), of m]
      handle_list_warehouses_failed[OF n2] handle_add_log_failed[OF n2]
    by auto
  have s: "conversation_states ?w2 = (conversation_states w)(u \<mapsto> session_of w env u)"
    using get_conversation_state_session[of "record_question w u m" env u]
    by (simp add: session_of_def)
  show ?thesis unfolding c using n s by simp
qed

lemma down_world_try:
  "parse_sector_id_try (db down_world) ''Sector 1'' user1 = Inl StoreError"
  by code_simp

lemma show_warehouses_intent:
  "detect_intent ''show warehouses in sector 1'' = list_warehouses_in_sector ''Sector 1''"
  by code_simp

lemma down_world_idle:
  "stage (session_of down_world env user1) \<noteq> collecting_inventory"
  by (simp add: session_of_def down_world_def world_of_def new_ConversationState_def)

theorem store_failure_reads_not_found_witness:
  "stage (session_of down_world (env_at ''2024-05-01T09:00:00'') user1) \<noteq> collecting_inventory
   \<and> detect_intent ''show warehouses in sector 1'' = list_warehouses_in_sector ''Sector 1''
   \<and> parse_sector_id_try (db down_world) ''Sector 1'' user1 = Inl StoreError
   \<and> snd (chat_endpoint down_world (env_at ''2024-05-01T09:00:00'') user1
            ''show warehouses in sector 1'')
     = Inr (sector_not_found ''Sector 1'')"
  using store_failure_reads_not_found [of down_world "env_at ''2024-05-01T09:00:00''" user1
      "''show warehouses in sector 1''" "''Sector 1''" "''''" StoreError]
    down_world_idle down_world_try show_warehouses_intent
  by simp

text \<open>
  Claim C7 as stated fails: with the first sector lookup raising an I/O error, the reply to
  \<open>show warehouses in sector 1\<close> is the not-found wording, not a generic retry message.
\<close>

theorem store_failure_not_found_counterexample:
  "parse_sector_id_try (db down_world) ''Sector 1'' user1 = Inl StoreError
   \<and> snd (chat_endpoint down_world (env_at ''2024-05-01T09:00:00'') user1
            ''show warehouses in sector 1'')
     = Inr ''I couldn't find Sector Sector 1 in your account.''"
proof -
  have i: "stage (session_of down_world (env_at ''2024-05-01T09:00:00'') user1) \<noteq> collecting_inventory"
    by (rule down_world_idle)
  have n: "parse_sector_id
             (db (fst (get_conversation_state
                        (record_question down_world user1 ''show warehouses in sector 1'')
                        (env_at ''2024-05-01T09:00:00'') user1)))
             ''Sector 1'' user1 = None"
    using down_world_try by (simp add: parse_sector_id_def)
  show ?thesis
    using down_world_try
    by (simp add: chat_endpoint_idle[OF i] show_warehouses_intent
        handle_list_warehouses_failed[OF n] sector_not_found_def)
qed

subsection \<open>Intent detection and its consequences\<close>

lemma re_search_SomeD:
  "re_search p s = Some caps \<Longrightarrow> \<exists>t r. (caps, r) \<in> set (m_alts p t)"
proof (induction s)
  case Nil
  then have "\<exists>r. (caps, r) \<in> set (m_alts p [])"
    by (cases "m_alts p []") (auto split: prod.splits)
  then show ?case by blast
next
  case (Cons x t)
  show ?case
  proof (cases "m_alts p (x # t)")
    case Nil
    with Cons show ?thesis by simp
  next
    case (Cons a as)
    obtain c r where a: "a = (c, r)" by (cases a)
    with Cons Cons.prems have "caps = c" by simp
    with Cons a have "(caps, r) \<in> set (m_alts p (x # t))" by simp
    then show ?thesis by blast
  qed
qed

lemma token_caps: "(c, r) \<in> set (m_re token s) \<Longrightarrow> length c = 1"
  by (auto simp: token_def)

lemma m_seq_caps_length:
  assumes "(c, r) \<in> set (m_seq xs s)"
    and "\<forall>x \<in> set xs. x = token \<or> (\<exists>l. x = Lit l) \<or> (\<exists>k n. x = Many k n)"
  shows "length c = length (filter (\<lambda>x. x = token) xs)"
  using assms
proof (induction xs arbitrary: c s)
  case Nil
  then show ?case by simp
next
  case (Cons x xs)
  from Cons.prems(1) obtain c1 s1 c2 where
    p: "(c1, s1) \<in> set (m_re x s)" "(c2, r) \<in> set (m_seq xs s1)" "c = c1 @ c2"
    by auto
  have ih: "length c2 = length (filter (\<lambda>x. x = token) xs)"
    using Cons.IH[OF p(2)] Cons.prems(2) by simp
  show ?case
  proof (cases "x = token")
    case True
    with p(1) have "length c1 = 1" by (simp add: token_caps)
    with ih p(3) True show ?thesis by simp
  next
    case False
    with Cons.prems(2) have "(\<exists>l. x = Lit l) \<or> (\<exists>k n. x = Many k n)" by simp
    with p(1) have "c1 = []" by (auto split: if_splits)
    with ih p(3) False show ?thesis by simp
  qed
qed

lemma add_log_caps:
  assumes "(c, r) \<in> set (m_alts add_log_re s)"
  shows "length c = 2"
proof -
  let ?items = "[Lit ''add'', sp, Many Dot 0, sp, Lit ''log'', sp, Lit ''in'', sp,
                 Lit ''warehouse'', sp, token, sp, Lit ''in'', sp, Lit ''sector'', sp, token]"
  from assms have m: "(c, r) \<in> set (m_seq ?items s)"
    by (simp only: add_log_re_def m_alts.simps append_Nil2)
  have k: "\<forall>x \<in> set ?items. x = token \<or> (\<exists>l. x = Lit l) \<or> (\<exists>k n. x = Many k n)"
    by (simp add: sp_def)
  have n: "length (filter (\<lambda>x. x = token) ?items) = 2"
    by (simp add: sp_def token_def)
  from m_seq_caps_length[OF m k] n show ?thesis
    by (simp only:)
qed

lemma add_log_search_two_tokens:
  "re_search add_log_re s = Some caps \<Longrightarrow> \<exists>t1 t2. caps = [t1, t2]"
proof -
  assume "re_search add_log_re s = Some caps"
  then obtain t r where "(caps, r) \<in> set (m_alts add_log_re t)"
    using re_search_SomeD by blast
  then have "length caps = 2" by (rule add_log_caps)
  then show ?thesis
    by (cases caps; cases "tl caps") auto
qed


text \<open>
  Claim C3, as amended. A message that matches the add-log pattern, and neither of the two
  list-sectors patterns, carries exactly two captured tokens; it is classified as \<open>add_log\<close>
  with these tokens (stripped, and prefixed when purely numeric) when it does not match the
  warehouses-in-sector pattern, and as \<open>list_warehouses_in_sector\<close> when it does, since that
  pattern is tried first.
\<close>

theorem add_log_unless_shadowed:
  assumes "re_search add_log_re (lower m) = Some caps"
    and "re_search show_sectors_list_re (lower m) = None"
    and "re_search list_sectors_re (lower m) = None"
  shows "\<exists>t1 t2. caps = [t1, t2]
           \<and> (re_search warehouses_in_sector_re (lower m) = None \<longrightarrow>
                detect_intent m
                = add_log (with_prefix ''Warehouse'' (strip t1)) (with_prefix ''Sector'' (strip t2)))
           \<and> (\<forall>c. re_search warehouses_in_sector_re (lower m) = Some c \<longrightarrow>
                detect_intent m = list_warehouses_in_sector (with_prefix ''Sector'' (strip (c ! 0))))"
proof -
  from assms(1) obtain t1 t2 where c: "caps = [t1, t2]"
    using add_log_search_two_tokens by blast
  have a: "re_search warehouses_in_sector_re (lower m) = None \<longrightarrow>
           detect_intent m
           = add_log (with_prefix ''Warehouse'' (strip t1)) (with_prefix ''Sector'' (strip t2))"
    using assms c by (simp add: detect_intent_def Let_def)
  have b: "\<forall>c. re_search warehouses_in_sector_re (lower m) = Some c \<longrightarrow>
           detect_intent m = list_warehouses_in_sector (with_prefix ''Sector'' (strip (c ! 0)))"
    using assms by (simp add: detect_intent_def Let_def)
  show ?thesis
  proof (intro exI conjI)
    show "caps = [t1, t2]" by (rule c)
    show "re_search warehouses_in_sector_re (lower m) = None \<longrightarrow>
          detect_intent m
          = add_log (with_prefix ''Warehouse'' (strip t1)) (with_prefix ''Sector'' (strip t2))"
      by (rule a)
    show "\<forall>c. re_search warehouses_in_sector_re (lower m) = Some c \<longrightarrow>
          detect_intent m = list_warehouses_in_sector (with_prefix ''Sector'' (strip (c ! 0)))"
      by (rule b)
  qed
qed

lemma plain_add_log_matches:
  "re_search add_log_re (lower ''Add new log in warehouse 1 in sector 1'') = Some [''1'', ''1'']"
  "re_search show_sectors_list_re (lower ''Add new log in warehouse 1 in sector 1'') = None"
  "re_search list_sectors_re (lower ''Add new log in warehouse 1 in sector 1'') = None"
  "re_search warehouses_in_sector_re (lower ''Add new log in warehouse 1 in sector 1'') = None"
  by code_simp+

lemma with_prefix_1:
  "with_prefix ''Warehouse'' (strip ''1'') = ''Warehouse 1''"
  "with_prefix ''Sector'' (strip ''1'') = ''Sector 1''"
  by code_simp+

theorem add_log_unless_shadowed_witness:
  "re_search add_log_re (lower ''Add new log in warehouse 1 in sector 1'') = Some [''1'', ''1'']
   \<and> re_search show_sectors_list_re (lower ''Add new log in warehouse 1 in sector 1'') = None
   \<and> re_search list_sectors_re (lower ''Add new log in warehouse 1 in sector 1'') = None
   \<and> re_search warehouses_in_sector_re (lower ''Add new log in warehouse 1 in sector 1'') = None
   \<and> detect_intent ''Add new log in warehouse 1 in sector 1'' = add_log ''Warehouse 1'' ''Sector 1''"
  using add_log_unless_shadowed [OF plain_add_log_matches(1) plain_add_log_matches(2)
      plain_add_log_matches(3)] plain_add_log_matches with_prefix_1
  by simp

text \<open>
  Claim C3 as stated fails: a message that matches the add-log pattern and also contains
  \<open>warehouses in sector 2\<close> is classified as \<open>list_warehouses_in_sector\<close>.
\<close>

theorem add_log_shadowed_counterexample:
  "re_search add_log_re (lower shadowed_message) = Some [''1'', ''1'']
   \<and> detect_intent shadowed_message = list_warehouses_in_sector ''Sector 2''"
  by code_simp

text \<open>
  Claim C10 at the message \<open>what did i ask\<close>: the message is lower-cased before matching
  while the pattern spells \<open>what\s+did\s+I\s+ask\<close> with a capital letter, so the message is
  classified as \<open>unknown\<close> and the reply is the capability summary, not the list of previous
  questions.
\<close>

theorem what_did_i_ask_is_unknown:
  "re_search previous_questions_re (lower ''what did i ask'') = None
   \<and> detect_intent ''what did i ask'' = unknown
   \<and> detect_intent ''What did I ask'' = unknown
   \<and> snd (chat_endpoint (world_of store1) (env_at ''2024-05-01T09:00:00'') user1 ''what did i ask'')
     = Inr unknown_text"
  by code_simp

theorem what_did_i_ask_is_unknown_witness:
  "detect_intent ''what did i ask'' \<noteq> previous_questions
   \<and> snd (chat_endpoint (world_of store1) (env_at ''2024-05-01T09:00:00'') user1 ''what did i ask'')
     \<noteq> Inr (format_questions [''what did i ask''])"
proof -
  have "unknown_text \<noteq> format_questions [''what did i ask'']"
    by code_simp
  then show ?thesis
    using what_did_i_ask_is_unknown by simp
qed

text \<open>
  Claim C6 at the turns \<open>greet_then_log\<close>: the session of user1 is created by the greeting
  at 09:00:00, the collection starts at 17:30:00 and completes at 17:31:00; the one log
  record that is stored carries the day 09:00:00, since the record under construction is
  seeded when the session is created (and when a collection completes), not when a
  collection starts.
\<close>

theorem stale_day_in_log:
  "map (\<lambda>l. (l_warehouse l, logData l ''day''))
     (logdatas (db (chat_turns (world_of store1) user1 greet_then_log)))
   = [(wid1, Some (PyStr ''2024-05-01T09:00:00''))]"
  by code_simp

subsection \<open>The collection dialog\<close>

lemma collect_inventory_states:
  assumes "stage st = collecting_inventory"
    and "conversation_states (fst (collect_inventory w env u m st)) u' = Some s'"
  shows "conversation_states w u' = Some s' \<or> stage s' = collecting_inventory
         \<or> dom (log_data s') = {''day''}"
  using assms
  by (cases "py_float (strip m)")
     (auto simp: collect_inventory_def Let_def split: option.splits sum.splits if_splits)

lemma start_collection_states:
  assumes "conversation_states (fst (start_collection w u st sid wid cols)) u' = Some s'"
  shows "conversation_states w u' = Some s' \<or> stage s' = collecting_inventory"
  using assms
  by (cases "filter (\<lambda>col. dataIndex col \<noteq> ''day'') cols")
     (auto simp: start_collection_def split: if_splits)

lemma dispatch_states:
  assumes "conversation_states (fst (dispatch w u st i)) u' = Some s'"
  shows "conversation_states w u' = Some s' \<or> stage s' = collecting_inventory"
proof (cases i)
  case (add_log wn sn)
  show ?thesis
    using assms start_collection_states[of w u st _ _ _ u' s']
    by (auto simp: add_log handle_add_log_def split: option.splits)
next
  case list_sectors
  then show ?thesis using assms
    by (simp add: handle_list_sectors_def split: list.splits)
next
  case (list_warehouses_in_sector sn)
  then show ?thesis using assms
    by (simp add: handle_list_warehouses_in_sector_def split: option.splits list.splits)
next
  case greeting
  then show ?thesis using assms by simp
next
  case previous_questions
  then show ?thesis using assms
    by (simp add: handle_previous_questions_def split: list.splits)
next
  case unknown
  then show ?thesis using assms by simp
qed

lemma idle_seeded_chat:
  assumes "idle_seeded w"
  shows "idle_seeded (fst (chat_endpoint w env u m))"
  unfolding idle_seeded_def
proof (intro allI impI)
  fix u' s'
  assume a: "conversation_states (fst (chat_endpoint w env u m)) u' = Some s' \<and> stage s' = initial"
  show "dom (log_data s') = {''day''}"
  proof (cases "stage (session_of w env u) = collecting_inventory")
    case True
    then obtain st where st: "conversation_states w u = Some st" "stage st = collecting_inventory"
      by (cases "conversation_states w u") (auto simp: session_of_def new_ConversationState_def)
    from a have "conversation_states (record_question w u m) u' = Some s'
                 \<or> stage s' = collecting_inventory \<or> dom (log_data s') = {''day''}"
      using collect_inventory_states[OF st(2), of "record_question w u m" env u m u' s']
      by (simp add: chat_endpoint_collecting[OF st])
    with a assms show ?thesis by (auto simp: idle_seeded_def)
  next
    case False
    let ?w2 = "fst (get_conversation_state (record_question w u m) env u)"
    have s: "conversation_states ?w2 = (conversation_states w)(u \<mapsto> session_of w env u)"
      using get_conversation_state_session[of "record_question w u m" env u]
      by (simp add: session_of_def)
    have i: "stage (session_of w env u) = initial \<longrightarrow>
             dom (log_data (session_of w env u)) = {''day''}"
      using assms
      by (cases "conversation_states w u")
         (simp_all add: idle_seeded_def session_of_def new_ConversationState_def)
    from a have "conversation_states ?w2 u' = Some s' \<or> stage s' = collecting_inventory"
      using dispatch_states[of ?w2 u "session_of w env u" "detect_intent m" u' s']
      by (simp add: chat_endpoint_idle[OF False])
    with a have "((conversation_states w)(u \<mapsto> session_of w env u)) u' = Some s'"
      by (simp add: s)
    with a i assms show ?thesis
      by (cases "u' = u") (auto simp: idle_seeded_def)
  qed
qed

lemma idle_seeded_start: "idle_seeded (world_of d)"
  by (simp add: idle_seeded_def world_of_def)

lemma idle_seeded_turns: "idle_seeded w \<Longrightarrow> idle_seeded (chat_turns w u ts)"
  by (induction ts arbitrary: w) (auto simp: idle_seeded_chat)

lemma start_turn:
  assumes idle: "stage (session_of w env u) \<noteq> collecting_inventory"
    and i: "detect_intent m = add_log wn sn"
    and s: "parse_sector_id (db w) sn u = Some sid"
    and wh: "parse_warehouse_id (db w) wn sid u = Some wid"
    and c: "get_warehouse_columns (db w) wid = Some cols"
    and f: "filter (\<lambda>c. dataIndex c \<noteq> ''day'') cols = c1 # rest"
  shows "snd (chat_endpoint w env u m)
         = Inr (''Please provide inventory count for '' @ title c1 @ ''.'')"
    and "db (fst (chat_endpoint w env u m)) = db w"
    and "conversation_states (fst (chat_endpoint w env u m)) u
         = Some ((session_of w env u)\<lparr>stage := collecting_inventory, warehouse_id := Some wid,
                   sector_id := Some sid, pending_columns := c1 # rest,
                   current_column_index := 0\<rparr>)"
proof -
  let ?w2 = "fst (get_conversation_state (record_question w u m) env u)"
  have d: "db ?w2 = db w" by simp
  have e: "chat_endpoint w env u m
           = respond
               (put_state ?w2 u
                  ((session_of w env u)\<lparr>stage := collecting_inventory, warehouse_id := Some wid,
                     sector_id := Some sid, pending_columns := c1 # rest,
                     current_column_index := 0\<rparr>))
               u (''Please provide inventory count for '' @ title c1 @ ''.'')"
    using s wh c f
    by (simp add: chat_endpoint_idle[OF idle] i handle_add_log_def start_collection_def d)
  show "snd (chat_endpoint w env u m)
         = Inr (''Please provide inventory count for '' @ title c1 @ ''.'')"
    unfolding e by simp
  show "db (fst (chat_endpoint w env u m)) = db w"
    unfolding e by simp
  show "conversation_states (fst (chat_endpoint w env u m)) u
         = Some ((session_of w env u)\<lparr>stage := collecting_inventory, warehouse_id := Some wid,
                   sector_id := Some sid, pending_columns := c1 # rest,
                   current_column_index := 0\<rparr>)"
    unfolding e by simp
qed

lemma collect_step:
  assumes st: "conversation_states w u = Some st"
    and c: "stage st = collecting_inventory"
    and v: "py_float (strip m) = Some v"
    and n: "Suc (current_column_index st) < length (pending_columns st)"
  shows "snd (chat_endpoint w env u m)
         = Inr (''Thanks, now please provide inventory count for ''
                @ title (pending_columns st ! Suc (current_column_index st)) @ ''.'')"
    and "db (fst (chat_endpoint w env u m)) = db w"
    and "conversation_states (fst (chat_endpoint w env u m)) u
         = Some (st\<lparr>log_data :=
                      (log_data st)(dataIndex (pending_columns st ! current_column_index st) \<mapsto> v),
                    current_column_index := Suc (current_column_index st)\<rparr>)"
proof -
  have e: "chat_endpoint w env u m
           = respond
               (put_state (record_question w u m) u
                  (st\<lparr>log_data :=
                        (log_data st)(dataIndex (pending_columns st ! current_column_index st) \<mapsto> v),
                      current_column_index := Suc (current_column_index st)\<rparr>))
               u (''Thanks, now please provide inventory count for ''
                  @ title (pending_columns st ! Suc (current_column_index st)) @ ''.'')"
    using v n by (simp add: chat_endpoint_collecting[OF st c] collect_inventory_def Let_def)
  show "snd (chat_endpoint w env u m)
         = Inr (''Thanks, now please provide inventory count for ''
                @ title (pending_columns st ! Suc (current_column_index st)) @ ''.'')"
    unfolding e by simp
  show "db (fst (chat_endpoint w env u m)) = db w"
    unfolding e by simp
  show "conversation_states (fst (chat_endpoint w env u m)) u
         = Some (st\<lparr>log_data :=
                      (log_data st)(dataIndex (pending_columns st ! current_column_index st) \<mapsto> v),
                    current_column_index := Suc (current_column_index st)\<rparr>)"
    unfolding e by simp
qed

lemma all_fields_updated:
  "(st :: ConversationState)\<lparr>stage := a, warehouse_id := b, sector_id := c, pending_columns := d,
      current_column_index := e, log_data := f\<rparr>
   = \<lparr>stage = a, warehouse_id = b, sector_id = c, pending_columns = d,
      current_column_index = e, log_data = f\<rparr>"
  by (cases st) simp

lemma collect_final:
  assumes st: "conversation_states w u = Some st"
    and c: "stage st = collecting_inventory"
    and v: "py_float (strip m) = Some v"
    and n: "Suc (current_column_index st) = length (pending_columns st)"
    and wi: "warehouse_id st = Some wid"
    and wo: "ObjectId wid = Inr wid'"
    and uo: "ObjectId u = Inr obj"
    and ins: "LogInsert \<notin> faults (db w)"
  shows "snd (chat_endpoint w env u m) = Inr ''Thanks, your log has been added successfully.''"
    and "db (fst (chat_endpoint w env u m))
         = (db w)\<lparr>logdatas := logdatas (db w) @
              [\<lparr>l_warehouse = wid', l_creator = obj,
                logData = (log_data st)(dataIndex (pending_columns st ! current_column_index st) \<mapsto> v)\<rparr>]\<rparr>"
    and "conversation_states (fst (chat_endpoint w env u m)) u
         = Some \<lparr>stage = initial, warehouse_id = None, sector_id = None, pending_columns = [],
                 current_column_index = 0, log_data = [''day'' \<mapsto> PyStr (now env)]\<rparr>"
proof -
  let ?L = "(log_data st)(dataIndex (pending_columns st ! current_column_index st) \<mapsto> v)"
  let ?d = "(db w)\<lparr>logdatas := logdatas (db w) @
              [\<lparr>l_warehouse = wid', l_creator = obj, logData = ?L\<rparr>]\<rparr>"
  have a: "fst (add_log_data (db w) wid' u ?L) = ?d"
    using uo ins by (simp add: add_log_data_def)
  have e: "chat_endpoint w env u m
           = respond
               (put_state ((record_question w u m)\<lparr>db := ?d\<rparr>) u
                  \<lparr>stage = initial, warehouse_id = None, sector_id = None, pending_columns = [],
                   current_column_index = 0, log_data = [''day'' \<mapsto> PyStr (now env)]\<rparr>)
               u ''Thanks, your log has been added successfully.''"
    using v n wi wo a
    by (simp add: chat_endpoint_collecting[OF st c] collect_inventory_def Let_def
        all_fields_updated)
  show "snd (chat_endpoint w env u m) = Inr ''Thanks, your log has been added successfully.''"
    unfolding e by simp
  show "db (fst (chat_endpoint w env u m)) = ?d"
    unfolding e by simp
  show "conversation_states (fst (chat_endpoint w env u m)) u
         = Some \<lparr>stage = initial, warehouse_id = None, sector_id = None, pending_columns = [],
                 current_column_index = 0, log_data = [''day'' \<mapsto> PyStr (now env)]\<rparr>"
    unfolding e by simp
qed


lemma session_of_idle:
  assumes "\<forall>st. conversation_states w u = Some st \<longrightarrow>
             stage st = initial \<and> dom (log_data st) = {''day''}"
  shows "stage (session_of w env u) = initial \<and> dom (log_data (session_of w env u)) = {''day''}"
  using assms
  by (cases "conversation_states w u") (simp_all add: session_of_def new_ConversationState_def)

text \<open>
  Claim C2. A user outside a collection sends a message classified as \<open>add_log\<close> whose sector
  and warehouse resolve, the warehouse having the columns \<open>[A, B, C]\<close> besides \<open>day\<close>; three
  replies follow, each of which parses as a number. Then, with a store that accepts the
  insert, exactly one log record is added, owned by the user, for the resolved warehouse,
  with the keys \<open>day\<close> and the data indexes of A, B and C; and the session is back at its
  idle defaults: stage \<open>initial\<close>, no warehouse, no sector, no pending column, cursor 0.
  The premise on the idle session (its record holds the \<open>day\<close> seed only) is an invariant
  of every turn, see \<open>idle_seeded_chat\<close>.
\<close>

theorem add_log_three_columns:
  assumes idle: "\<forall>st. conversation_states w u = Some st \<longrightarrow>
                   stage st = initial \<and> dom (log_data st) = {''day''}"
    and intent: "detect_intent m = add_log wn sn"
    and sec: "parse_sector_id (db w) sn u = Some sid"
    and wh: "parse_warehouse_id (db w) wn sid u = Some wid"
    and cols: "get_warehouse_columns (db w) wid = Some cols"
    and abc: "filter (\<lambda>c. dataIndex c \<noteq> ''day'') cols = [A, B, C]"
    and wid: "ObjectId wid = Inr wid"
    and ins: "LogInsert \<notin> faults (db w)"
    and v1: "py_float (strip r1) = Some v1"
    and v2: "py_float (strip r2) = Some v2"
    and v3: "py_float (strip r3) = Some v3"
  shows "\<exists>obj L. ObjectId u = Inr obj
           \<and> logdatas (db (chat_turns w u [(e0, m), (e1, r1), (e2, r2), (e3, r3)]))
             = logdatas (db w) @ [\<lparr>l_warehouse = wid, l_creator = obj, logData = L\<rparr>]
           \<and> dom L = {''day'', dataIndex A, dataIndex B, dataIndex C}
           \<and> conversation_states (chat_turns w u [(e0, m), (e1, r1), (e2, r2), (e3, r3)]) u
             = Some \<lparr>stage = initial, warehouse_id = None, sector_id = None,
                     pending_columns = [], current_column_index = 0,
                     log_data = [''day'' \<mapsto> PyStr (now e3)]\<rparr>"
proof -
  from sec obtain obj where obj: "ObjectId u = Inr obj"
    using parse_sector_id_scoped by blast
  define st0 where "st0 = session_of w e0 u"
  have st0: "stage st0 = initial" "dom (log_data st0) = {''day''}"
    using session_of_idle[OF idle, of e0] by (simp_all add: st0_def)
  have idle0: "stage (session_of w e0 u) \<noteq> collecting_inventory"
    using st0(1) by (simp add: st0_def)
  define s1 where "s1 = st0\<lparr>stage := collecting_inventory, warehouse_id := Some wid,
                   sector_id := Some sid, pending_columns := [A, B, C],
                   current_column_index := 0\<rparr>"
  define w1 where "w1 = fst (chat_endpoint w e0 u m)"
  have w1: "db w1 = db w" "conversation_states w1 u = Some s1"
    using start_turn(2,3)[OF idle0 intent sec wh cols abc]
    by (simp_all add: w1_def s1_def st0_def)
  define s2 where "s2 = s1\<lparr>log_data := (log_data s1)(dataIndex A \<mapsto> v1),
                              current_column_index := 1\<rparr>"
  define w2 where "w2 = fst (chat_endpoint w1 e1 u r1)"
  have c1: "stage s1 = collecting_inventory" by (simp add: s1_def)
  have n1: "Suc (current_column_index s1) < length (pending_columns s1)" by (simp add: s1_def)
  have w2: "db w2 = db w" "conversation_states w2 u = Some s2"
    using collect_step(2,3)[OF w1(2) c1 v1 n1, of e1] w1(1)
    by (simp_all add: w2_def s2_def s1_def)
  define s3 where "s3 = s2\<lparr>log_data := (log_data s2)(dataIndex B \<mapsto> v2),
                              current_column_index := 2\<rparr>"
  define w3 where "w3 = fst (chat_endpoint w2 e2 u r2)"
  have c2: "stage s2 = collecting_inventory" by (simp add: s2_def s1_def)
  have n2: "Suc (current_column_index s2) < length (pending_columns s2)"
    by (simp add: s2_def s1_def)
  have w3: "db w3 = db w" "conversation_states w3 u = Some s3"
    using collect_step(2,3)[OF w2(2) c2 v2 n2, of e2] w2(1)
    by (simp_all add: w3_def s3_def s2_def s1_def)
  define L where "L = (log_data s3)(dataIndex C \<mapsto> v3)"
  define w4 where "w4 = fst (chat_endpoint w3 e3 u r3)"
  have c3: "stage s3 = collecting_inventory" by (simp add: s3_def s2_def s1_def)
  have n3: "Suc (current_column_index s3) = length (pending_columns s3)"
    by (simp add: s3_def s2_def s1_def)
  have wi: "warehouse_id s3 = Some wid" by (simp add: s3_def s2_def s1_def)
  have ins3: "LogInsert \<notin> faults (db w3)" using ins w3(1) by simp
  have w4: "db w4 = (db w)\<lparr>logdatas := logdatas (db w) @
                       [\<lparr>l_warehouse = wid, l_creator = obj, logData = L\<rparr>]\<rparr>"
    "conversation_states w4 u
     = Some \<lparr>stage = initial, warehouse_id = None, sector_id = None, pending_columns = [],
             current_column_index = 0, log_data = [''day'' \<mapsto> PyStr (now e3)]\<rparr>"
    using collect_final(2,3)[OF w3(2) c3 v3 n3 wi wid obj ins3, of e3] w3(1)
    by (simp_all add: w4_def L_def s3_def s2_def s1_def)
  have domL: "dom L = {''day'', dataIndex A, dataIndex B, dataIndex C}"
    using st0(2) by (auto simp: L_def s3_def s2_def s1_def)
  have turns: "chat_turns w u [(e0, m), (e1, r1), (e2, r2), (e3, r3)] = w4"
    by (simp add: w4_def w3_def w2_def w1_def)
  show ?thesis
  proof (intro exI conjI)
    show "ObjectId u = Inr obj" by (rule obj)
    show "logdatas (db (chat_turns w u [(e0, m), (e1, r1), (e2, r2), (e3, r3)]))
          = logdatas (db w) @ [\<lparr>l_warehouse = wid, l_creator = obj, logData = L\<rparr>]"
      unfolding turns w4(1) by simp
    show "dom L = {''day'', dataIndex A, dataIndex B, dataIndex C}" by (rule domL)
    show "conversation_states (chat_turns w u [(e0, m), (e1, r1), (e2, r2), (e3, r3)]) u
          = Some \<lparr>stage = initial, warehouse_id = None, sector_id = None,
                  pending_columns = [], current_column_index = 0,
                  log_data = [''day'' \<mapsto> PyStr (now e3)]\<rparr>"
      unfolding turns by (rule w4(2))
  qed
qed


lemma world_of_simps [simp]:
  "db (world_of d) = d"
  "conversation_states (world_of d) = Map.empty"
  by (simp_all add: world_of_def)

lemma store1_warehouse: "parse_warehouse_id store1 ''Warehouse 1'' sid1 user1 = Some wid1"
  by code_simp

lemma store1_columns:
  "get_warehouse_columns store1 wid1 = Some [col_day, col_qty, col_weight, col_price]"
  by code_simp

lemma store1_inventory_columns:
  "filter (\<lambda>c. dataIndex c \<noteq> ''day'') [col_day, col_qty, col_weight, col_price]
   = [col_qty, col_weight, col_price]"
  by code_simp

lemma wid1_oid: "ObjectId wid1 = Inr wid1"
  by code_simp

lemma add_log_intent:
  "detect_intent ''add new log in warehouse 1 in sector 1'' = add_log ''Warehouse 1'' ''Sector 1''"
  by code_simp

lemma three_numbers:
  "py_float (strip ''50'') = Some (PyFloat ''50'')"
  "py_float (strip '' 12.5'') = Some (PyFloat ''12.5'')"
  "py_float (strip ''3e2'') = Some (PyFloat ''3e2'')"
  by code_simp+

theorem add_log_three_columns_witness:
  "detect_intent ''add new log in warehouse 1 in sector 1'' = add_log ''Warehouse 1'' ''Sector 1''
   \<and> parse_sector_id store1 ''Sector 1'' user1 = Some sid1
   \<and> parse_warehouse_id store1 ''Warehouse 1'' sid1 user1 = Some wid1
   \<and> get_warehouse_columns store1 wid1 = Some [col_day, col_qty, col_weight, col_price]
   \<and> py_float (strip ''50'') = Some (PyFloat ''50'')
   \<and> py_float (strip '' 12.5'') = Some (PyFloat ''12.5'')
   \<and> py_float (strip ''3e2'') = Some (PyFloat ''3e2'')
   \<and> (\<exists>obj L. ObjectId user1 = Inr obj
        \<and> logdatas (db (chat_turns (world_of store1) user1
             [(env_at ''2024-05-01T17:30:00'', ''add new log in warehouse 1 in sector 1''),
              (env_at ''2024-05-01T17:30:20'', ''50''),
              (env_at ''2024-05-01T17:30:40'', '' 12.5''),
              (env_at ''2024-05-01T17:31:00'', ''3e2'')]))
          = [\<lparr>l_warehouse = wid1, l_creator = obj, logData = L\<rparr>]
        \<and> dom L = {''day'', ''qty'', ''weight'', ''price''}
        \<and> conversation_states (chat_turns (world_of store1) user1
             [(env_at ''2024-05-01T17:30:00'', ''add new log in warehouse 1 in sector 1''),
              (env_at ''2024-05-01T17:30:20'', ''50''),
              (env_at ''2024-05-01T17:30:40'', '' 12.5''),
              (env_at ''2024-05-01T17:31:00'', ''3e2'')]) user1
          = Some \<lparr>stage = initial, warehouse_id = None, sector_id = None,
                  pending_columns = [], current_column_index = 0,
                  log_data = [''day'' \<mapsto> PyStr ''2024-05-01T17:31:00'']\<rparr>)"
proof -
  have h1: "\<forall>st. conversation_states (world_of store1) user1 = Some st \<longrightarrow>
              stage st = initial \<and> dom (log_data st) = {''day''}"
    by simp
  have h3: "parse_sector_id (db (world_of store1)) ''Sector 1'' user1 = Some sid1"
    using resolve_store1_user1 by simp
  have h4: "parse_warehouse_id (db (world_of store1)) ''Warehouse 1'' sid1 user1 = Some wid1"
    using store1_warehouse by simp
  have h5: "get_warehouse_columns (db (world_of store1)) wid1
            = Some [col_day, col_qty, col_weight, col_price]"
    using store1_columns by simp
  have h8: "LogInsert \<notin> faults (db (world_of store1))"
    by (simp add: store1_def)
  have l0: "logdatas (db (world_of store1)) = []"
    by (simp add: store1_def)
  have k: "dataIndex col_qty = ''qty''" "dataIndex col_weight = ''weight''"
    "dataIndex col_price = ''price''" "now (env_at ''2024-05-01T17:31:00'') = ''2024-05-01T17:31:00''"
    by (simp_all add: col_qty_def col_weight_def col_price_def env_at_def)
  note r = add_log_three_columns [OF h1 add_log_intent h3 h4 h5 store1_inventory_columns
      wid1_oid h8 three_numbers, of "env_at ''2024-05-01T17:30:00''"
      "env_at ''2024-05-01T17:30:20''" "env_at ''2024-05-01T17:30:40''"
      "env_at ''2024-05-01T17:31:00''"]
  show ?thesis
    using r add_log_intent resolve_store1_user1 store1_warehouse store1_columns three_numbers
    by (simp only: l0 k append_Nil simp_thms)
qed

end
